theory Spec2Isabelle
  imports Complex_Main
begin

section \<open>The store of the flow editor (the later store, \<^verbatim>\<open>createStore\<close> over \<^verbatim>\<open>@xyflow/system\<close>)\<close>

text \<open>
  JavaScript objects are shared and mutated in place, so node and edge objects live in an
  explicit heap and the arrays of the store hold addresses. An object literal allocates
  the next unused address. Numbers are only copied by the operations modelled here,
  never computed with.
\<close>

type_synonym ref = nat

record 'a heap =
  objs :: "ref \<Rightarrow> 'a"
  fresh :: ref

definition alloc :: "'a heap \<Rightarrow> 'a \<Rightarrow> ref \<times> 'a heap" where
  "alloc h v = (fresh h, \<lparr>objs = (objs h)(fresh h := v), fresh = Suc (fresh h)\<rparr>)"

definition mutate :: "'a heap \<Rightarrow> ref \<Rightarrow> ('a \<Rightarrow> 'a) \<Rightarrow> 'a heap" where
  "mutate h r f = h\<lparr>objs := (objs h)(r := f (objs h r))\<rparr>"

type_synonym XYPosition = "real \<times> real"
type_synonym CoordinateExtent = "XYPosition \<times> XYPosition"

record node_computed =
  positionAbsolute :: "XYPosition option"
  computed_width :: "real option"
  computed_height :: "real option"

text \<open>A node; an optional property that is \<^verbatim>\<open>undefined\<close> is \<open>None\<close>.\<close>

record node =
  node_id :: string
  position :: XYPosition
  computed :: "node_computed option"
  selected :: "bool option"
  dragging :: "bool option"
  parentId :: "string option"
  deletable :: "bool option"
  node_type :: "string option"
  internals :: "nat option"

record edge =
  edge_id :: string
  source :: string
  target :: string
  sourceHandle :: "string option"
  targetHandle :: "string option"
  edge_type :: "string option"
  edge_selected :: "bool option"
  edge_deletable :: "bool option"

text \<open>JavaScript truthiness of an optional boolean property.\<close>

fun truthy :: "bool option \<Rightarrow> bool" where
  "truthy None = False"
| "truthy (Some b) = b"

text \<open>
  The pan/zoom engine is an object outside the store. The model keeps the transform it
  reports and the calls it has received from the store.
\<close>

datatype pz_call =
    SetScaleExtent real real
  | SetTranslateExtent CoordinateExtent

record panzoom =
  pz_transform :: "real \<times> real \<times> real"
  pz_calls :: "pz_call list"

record fit_view_options =
  waitForInit :: "bool option"
  fvo_nodes :: "ref list option"
  padding :: "real option"
  includeHiddenNodes :: "bool option"
  fvo_minZoom :: "real option"
  fvo_maxZoom :: "real option"
  duration :: "real option"

text \<open>The cell \<^verbatim>\<open>fitViewScheduled\<close> holds a boolean or the options of the request.\<close>

datatype fit_view_scheduled = FvsBool bool | FvsOptions fit_view_options

record connection_data =
  connectionStartHandle :: "(string \<times> string option) option"
  connectionEndHandle :: "(string \<times> string option) option"
  connectionPosition :: "XYPosition option"
  connectionStatus :: "string option"

type_synonym connection = "string \<times> string \<times> string option \<times> string option"

text \<open>
  The writable cells of the store. Every \<^verbatim>\<open>set\<close> and \<^verbatim>\<open>update\<close> is logged in \<open>writes\<close>.
  A call of the shape \<^verbatim>\<open>store.c.set(get(store.c))\<close> hands the cell the very value it holds;
  such a call is logged in \<open>heldSets\<close> as well.
\<close>

datatype cell =
    NodesCell | EdgesCell | FitViewScheduledCell | MinZoomCell | MaxZoomCell
  | TranslateExtentCell | SelectionRectCell | SelectionRectModeCell | SnapGridCell
  | IsValidConnectionCell | CurrentConnectionCell

text \<open>
  A line of the console: \<^verbatim>\<open>console.warn('012', errorMessages['error012'](id))\<close>. The table
  \<^verbatim>\<open>errorMessages\<close> is not part of the store; its message is kept symbolic.
\<close>

datatype message = Error012 string
datatype console_line = Warn string message

record store =
  nodes :: "ref list"
  edges :: "ref list"
  node_heap :: "node heap"
  edge_heap :: "edge heap"
  nodeTypes :: "(string \<times> string) list"
  edgeTypes :: "(string \<times> string) list"
  width :: real
  height :: real
  nodeOrigin :: "real \<times> real"
  viewport :: "real \<times> real \<times> real"
  panZoom :: "panzoom option"
  minZoom :: real
  maxZoom :: real
  translateExtent :: CoordinateExtent
  fitViewScheduled :: fit_view_scheduled
  multiselectionKeyPressed :: bool
  selectionRect :: "(real \<times> real \<times> real \<times> real) option"
  selectionRectMode :: "string option"
  snapGrid :: "(real \<times> real) option"
  isValidConnection :: "connection \<Rightarrow> bool"
  currentConnection :: connection_data
  console :: "console_line list"
  writes :: "cell list"
  heldSets :: "cell list"

subsection \<open>Viewport controller: zoom bounds and translate extent\<close>

definition setMinZoom :: "real \<Rightarrow> store \<Rightarrow> store" where
  "setMinZoom z s =
     (case panZoom s of
        None \<Rightarrow> s
      | Some pz \<Rightarrow>
          s\<lparr>panZoom := Some (pz\<lparr>pz_calls := pz_calls pz @ [SetScaleExtent z (maxZoom s)]\<rparr>),
            minZoom := z,
            writes := writes s @ [MinZoomCell]\<rparr>)"

definition setMaxZoom :: "real \<Rightarrow> store \<Rightarrow> store" where
  "setMaxZoom z s =
     (case panZoom s of
        None \<Rightarrow> s
      | Some pz \<Rightarrow>
          s\<lparr>panZoom := Some (pz\<lparr>pz_calls := pz_calls pz @ [SetScaleExtent (minZoom s) z]\<rparr>),
            maxZoom := z,
            writes := writes s @ [MaxZoomCell]\<rparr>)"

definition setTranslateExtent :: "CoordinateExtent \<Rightarrow> store \<Rightarrow> store" where
  "setTranslateExtent ext s =
     (case panZoom s of
        None \<Rightarrow> s
      | Some pz \<Rightarrow>
          s\<lparr>panZoom := Some (pz\<lparr>pz_calls := pz_calls pz @ [SetTranslateExtent ext]\<rparr>),
            translateExtent := ext,
            writes := writes s @ [TranslateExtentCell]\<rparr>)"

subsection \<open>Fit view and the dimension update\<close>

text \<open>
  \<^verbatim>\<open>fitViewUtil\<close> and \<^verbatim>\<open>updateNodeDimensionsSystem\<close> come from \<^verbatim>\<open>@xyflow/system\<close>; they are
  parameters of the model. \<^verbatim>\<open>fitViewUtil\<close> is handed the engine and no cell of the store:
  it answers with its boolean and the engine as it left it.
  \<^verbatim>\<open>updateNodeDimensionsSystem\<close> may mutate node objects and answers with the next array
  of nodes, or \<^verbatim>\<open>null\<close>.
\<close>

record fit_view_params =
  fvp_nodes :: "ref list"
  fvp_width :: real
  fvp_height :: real
  fvp_minZoom :: real
  fvp_maxZoom :: real
  fvp_panZoom :: panzoom
  fvp_nodeOrigin :: "real \<times> real"

type_synonym fit_view_util =
  "node heap \<Rightarrow> fit_view_params \<Rightarrow> fit_view_options option \<Rightarrow> bool \<times> panzoom"

type_synonym 'u dimension_system = "'u \<Rightarrow> store \<Rightarrow> node heap \<times> ref list option"

text \<open>The call of \<^verbatim>\<open>fitViewUtil\<close> at the end of \<^verbatim>\<open>fitView\<close>, with the cells it reads.\<close>

definition callFitViewUtil ::
  "fit_view_util \<Rightarrow> ref list \<Rightarrow> fit_view_options option \<Rightarrow> panzoom \<Rightarrow> store \<Rightarrow> bool \<times> store" where
  "callFitViewUtil fitViewUtil nds options pz s =
     (let (ok, pz') =
            fitViewUtil (node_heap s)
              \<lparr>fvp_nodes = nds, fvp_width = width s, fvp_height = height s,
               fvp_minZoom = minZoom s, fvp_maxZoom = maxZoom s, fvp_panZoom = pz,
               fvp_nodeOrigin = nodeOrigin s\<rparr>
              options
      in (ok, s\<lparr>panZoom := Some pz'\<rparr>))"

definition fitView ::
  "fit_view_util \<Rightarrow> ref list \<Rightarrow> fit_view_options option \<Rightarrow> store \<Rightarrow> bool \<times> store" where
  "fitView fitViewUtil nds options s =
     (case panZoom s of
        None \<Rightarrow> (False, s)
      | Some pz \<Rightarrow>
          (case options of
             None \<Rightarrow> callFitViewUtil fitViewUtil nds options pz s
           | Some opts \<Rightarrow>
               if truthy (waitForInit opts)
               then (True, s\<lparr>fitViewScheduled := FvsOptions opts,
                             writes := writes s @ [FitViewScheduledCell]\<rparr>)
               else callFitViewUtil fitViewUtil nds options pz s))"

text \<open>The options of the retry, the local \<^verbatim>\<open>fitViewOptions\<close> of \<^verbatim>\<open>updateNodeDimensions\<close>.\<close>

definition fitViewOptions :: "fit_view_scheduled \<Rightarrow> ref list \<Rightarrow> fit_view_options" where
  "fitViewOptions scheduled nextNodes =
     (case scheduled of
        FvsBool _ \<Rightarrow>
          \<lparr>waitForInit = None, fvo_nodes = Some nextNodes, padding = None,
           includeHiddenNodes = None, fvo_minZoom = None, fvo_maxZoom = None,
           duration = None\<rparr>
      | FvsOptions opts \<Rightarrow>
          opts\<lparr>waitForInit := Some False,
               fvo_nodes := Some (case fvo_nodes opts of None \<Rightarrow> nextNodes | Some ns \<Rightarrow> ns)\<rparr>)"

definition updateNodeDimensions ::
  "'u dimension_system \<Rightarrow> fit_view_util \<Rightarrow> 'u \<Rightarrow> store \<Rightarrow> store" where
  "updateNodeDimensions updateNodeDimensionsSystem fitViewUtil updates s =
     (let (h, res) = updateNodeDimensionsSystem updates s;
          s0 = s\<lparr>node_heap := h\<rparr>
      in case res of
           None \<Rightarrow> s0
         | Some nextNodes \<Rightarrow>
             (let s2 =
                (if fitViewScheduled s0 = FvsBool False then s0
                 else
                   (let (fitViewDone, s1) =
                          fitView fitViewUtil nextNodes
                            (Some (fitViewOptions (fitViewScheduled s0) nextNodes)) s0
                    in if fitViewDone
                       then s1\<lparr>fitViewScheduled := FvsBool False,
                               writes := writes s1 @ [FitViewScheduledCell]\<rparr>
                       else s1))
              in s2\<lparr>nodes := nextNodes, writes := writes s2 @ [NodesCell]\<rparr>))"

subsection \<open>Moving nodes\<close>

text \<open>
  An item of \<^verbatim>\<open>nodeDragItems\<close> (a \<^verbatim>\<open>NodeDragItem\<close> or a \<^verbatim>\<open>NodeBase\<close>): the properties
  \<^verbatim>\<open>updateNodePositions\<close> reads.
\<close>

record drag_item =
  item_id :: string
  item_position :: XYPosition
  item_computed :: "node_computed option"

definition emptyComputed :: node_computed where
  "emptyComputed = \<lparr>positionAbsolute = None, computed_width = None, computed_height = None\<rparr>"

text \<open>The object literal built for a node that has a drag item.\<close>

definition movedNode :: "node \<Rightarrow> drag_item \<Rightarrow> bool \<Rightarrow> node" where
  "movedNode n ndi dr =
     n\<lparr>dragging := Some dr,
       position := item_position ndi,
       computed :=
         Some ((case computed n of None \<Rightarrow> emptyComputed | Some c \<Rightarrow> c)
                 \<lparr>positionAbsolute :=
                    (case item_computed ndi of None \<Rightarrow> None | Some c \<Rightarrow> positionAbsolute c)\<rparr>),
       internals := internals n\<rparr>"

text \<open>The callback of \<^verbatim>\<open>nds.map\<close>, run over the array from left to right.\<close>

fun mapNodePositions ::
  "drag_item list \<Rightarrow> bool \<Rightarrow> ref list \<Rightarrow> node heap \<Rightarrow> ref list \<times> node heap" where
  "mapNodePositions nodeDragItems dr [] h = ([], h)"
| "mapNodePositions nodeDragItems dr (r # rs) h =
     (case find (\<lambda>ndi. item_id ndi = node_id (objs h r)) nodeDragItems of
        Some ndi \<Rightarrow>
          (let (r', h1) = alloc h (movedNode (objs h r) ndi dr);
               (rs', h2) = mapNodePositions nodeDragItems dr rs h1
           in (r' # rs', h2))
      | None \<Rightarrow>
          (let (rs', h2) = mapNodePositions nodeDragItems dr rs h
           in (r # rs', h2)))"

text \<open>The parameter \<^verbatim>\<open>dragging\<close> defaults to \<^verbatim>\<open>false\<close>.\<close>

definition updateNodePositions :: "drag_item list \<Rightarrow> bool option \<Rightarrow> store \<Rightarrow> store" where
  "updateNodePositions nodeDragItems dragging_arg s =
     (let dr = (case dragging_arg of None \<Rightarrow> False | Some b \<Rightarrow> b);
          (ns, h) = mapNodePositions nodeDragItems dr (nodes s) (node_heap s)
      in s\<lparr>nodes := ns, node_heap := h, writes := writes s @ [NodesCell]\<rparr>)"

subsection \<open>Selection\<close>

text \<open>
  \<^verbatim>\<open>resetSelectedElements\<close> takes nodes or edges; the model takes the reader of the
  \<^verbatim>\<open>selected\<close> property and the assignment \<^verbatim>\<open>element.selected = false\<close>. The pair carried
  through the loop is \<^verbatim>\<open>elementsChanged\<close> and the heap.
\<close>

definition resetSelectedElements ::
  "('a \<Rightarrow> bool option) \<Rightarrow> ('a \<Rightarrow> 'a) \<Rightarrow> ref list \<Rightarrow> 'a heap \<Rightarrow> bool \<times> 'a heap" where
  "resetSelectedElements sel clear elements h =
     foldl (\<lambda>(elementsChanged, h) r.
              if truthy (sel (objs h r)) then (True, mutate h r clear)
              else (elementsChanged, h))
           (False, h) elements"

definition unselectNode :: "node \<Rightarrow> node" where
  "unselectNode n = n\<lparr>selected := Some False\<rparr>"

definition unselectEdge :: "edge \<Rightarrow> edge" where
  "unselectEdge e = e\<lparr>edge_selected := Some False\<rparr>"

record unselect_params =
  up_nodes :: "ref list option"
  up_edges :: "ref list option"

text \<open>\<^verbatim>\<open>params?.nodes || get(store.nodes)\<close> and its twin; an array is truthy even when empty.\<close>

definition nodesOrAll :: "unselect_params option \<Rightarrow> store \<Rightarrow> ref list" where
  "nodesOrAll params s =
     (case params of
        None \<Rightarrow> nodes s
      | Some p \<Rightarrow> (case up_nodes p of None \<Rightarrow> nodes s | Some l \<Rightarrow> l))"

definition edgesOrAll :: "unselect_params option \<Rightarrow> store \<Rightarrow> ref list" where
  "edgesOrAll params s =
     (case params of
        None \<Rightarrow> edges s
      | Some p \<Rightarrow> (case up_edges p of None \<Rightarrow> edges s | Some l \<Rightarrow> l))"

definition unselectNodesAndEdges :: "unselect_params option \<Rightarrow> store \<Rightarrow> store" where
  "unselectNodesAndEdges params s =
     (let (resetNodes, nh) =
            resetSelectedElements selected unselectNode (nodesOrAll params s) (node_heap s);
          s1 = s\<lparr>node_heap := nh\<rparr>;
          s2 = (if resetNodes
                then s1\<lparr>nodes := nodes s1, writes := writes s1 @ [NodesCell],
                        heldSets := heldSets s1 @ [NodesCell]\<rparr>
                else s1);
          (resetEdges, eh) =
            resetSelectedElements edge_selected unselectEdge (edgesOrAll params s2) (edge_heap s2);
          s3 = s2\<lparr>edge_heap := eh\<rparr>
      in if resetEdges
         then s3\<lparr>edges := edges s3, writes := writes s3 @ [EdgesCell],
                 heldSets := heldSets s3 @ [EdgesCell]\<rparr>
         else s3)"

text \<open>The callbacks of the two \<^verbatim>\<open>map\<close> calls assign to the object they are given.\<close>

definition selectNode :: "bool \<Rightarrow> string list \<Rightarrow> node \<Rightarrow> node" where
  "selectNode isMultiSelection ids n =
     n\<lparr>selected :=
         Some (if isMultiSelection then truthy (selected n) \<or> node_id n \<in> set ids
               else node_id n \<in> set ids)\<rparr>"

definition selectEdge :: "bool \<Rightarrow> string list \<Rightarrow> edge \<Rightarrow> edge" where
  "selectEdge isMultiSelection ids e =
     e\<lparr>edge_selected :=
         Some (if isMultiSelection then truthy (edge_selected e) \<or> edge_id e \<in> set ids
               else edge_id e \<in> set ids)\<rparr>"

definition mutateAll :: "('a \<Rightarrow> 'a) \<Rightarrow> ref list \<Rightarrow> 'a heap \<Rightarrow> 'a heap" where
  "mutateAll f rs h = foldl (\<lambda>h r. mutate h r f) h rs"

definition addSelectedNodes :: "string list \<Rightarrow> store \<Rightarrow> store" where
  "addSelectedNodes ids s =
     (let isMultiSelection = multiselectionKeyPressed s;
          s1 = s\<lparr>node_heap := mutateAll (selectNode isMultiSelection ids) (nodes s) (node_heap s),
                 writes := writes s @ [NodesCell]\<rparr>
      in if \<not> isMultiSelection
         then s1\<lparr>edge_heap := mutateAll unselectEdge (edges s1) (edge_heap s1),
                 writes := writes s1 @ [EdgesCell]\<rparr>
         else s1)"

definition addSelectedEdges :: "string list \<Rightarrow> store \<Rightarrow> store" where
  "addSelectedEdges ids s =
     (let isMultiSelection = multiselectionKeyPressed s;
          s1 = s\<lparr>edge_heap := mutateAll (selectEdge isMultiSelection ids) (edges s) (edge_heap s),
                 writes := writes s @ [EdgesCell]\<rparr>
      in if \<not> isMultiSelection
         then s1\<lparr>node_heap := mutateAll unselectNode (nodes s1) (node_heap s1),
                 writes := writes s1 @ [NodesCell]\<rparr>
         else s1)"

definition handleNodeSelection :: "string \<Rightarrow> store \<Rightarrow> store" where
  "handleNodeSelection ident s =
     (case find (\<lambda>r. node_id (objs (node_heap s) r) = ident) (nodes s) of
        None \<Rightarrow> s\<lparr>console := console s @ [Warn ''012'' (Error012 ident)]\<rparr>
      | Some r \<Rightarrow>
          (let s1 = s\<lparr>selectionRect := None, selectionRectMode := None,
                      writes := writes s @ [SelectionRectCell, SelectionRectModeCell]\<rparr>;
               n = objs (node_heap s1) r
           in if \<not> truthy (selected n) then addSelectedNodes [ident] s1
              else if truthy (selected n) \<and> multiselectionKeyPressed s1
              then unselectNodesAndEdges (Some \<lparr>up_nodes = Some [r], up_edges = Some []\<rparr>) s1
              else s1))"

text \<open>What an observer of the store sees of the selection.\<close>

definition nodeAt :: "store \<Rightarrow> ref \<Rightarrow> node" where
  "nodeAt s r = objs (node_heap s) r"

definition edgeAt :: "store \<Rightarrow> ref \<Rightarrow> edge" where
  "edgeAt s r = objs (edge_heap s) r"

definition idsOfNodes :: "store \<Rightarrow> string set" where
  "idsOfNodes s = set (map (\<lambda>r. node_id (nodeAt s r)) (nodes s))"

definition idsOfEdges :: "store \<Rightarrow> string set" where
  "idsOfEdges s = set (map (\<lambda>r. edge_id (edgeAt s r)) (edges s))"

definition selectedNodeIds :: "store \<Rightarrow> string set" where
  "selectedNodeIds s =
     set (map (\<lambda>r. node_id (nodeAt s r))
            (filter (\<lambda>r. truthy (selected (nodeAt s r))) (nodes s)))"

definition selectedEdgeIds :: "store \<Rightarrow> string set" where
  "selectedEdgeIds s =
     set (map (\<lambda>r. edge_id (edgeAt s r))
            (filter (\<lambda>r. truthy (edge_selected (edgeAt s r))) (edges s)))"

subsection \<open>Connection in progress and reset\<close>

definition initConnectionUpdateData :: connection_data where
  "initConnectionUpdateData =
     \<lparr>connectionStartHandle = None, connectionEndHandle = None,
      connectionPosition = None, connectionStatus = None\<rparr>"

definition updateConnection :: "connection_data \<Rightarrow> store \<Rightarrow> store" where
  "updateConnection newConnection s =
     s\<lparr>currentConnection := newConnection, writes := writes s @ [CurrentConnectionCell]\<rparr>"

definition cancelConnection :: "store \<Rightarrow> store" where
  "cancelConnection s = updateConnection initConnectionUpdateData s"

definition reset :: "store \<Rightarrow> store" where
  "reset s =
     cancelConnection
       (unselectNodesAndEdges None
          (s\<lparr>selectionRect := None,
             selectionRectMode := None,
             snapGrid := None,
             isValidConnection := (\<lambda>_. True),
             nodes := [],
             edges := [],
             writes := writes s @ [SelectionRectCell, SelectionRectModeCell, SnapGridCell,
                                   IsValidConnectionCell, NodesCell, EdgesCell]\<rparr>))"

section \<open>The earlier store (\<^verbatim>\<open>createStore\<close> over \<^verbatim>\<open>@reactflow/system\<close>)\<close>

text \<open>
  The store of \<^verbatim>\<open>packages/svelte/src/lib/store/index.ts\<close> keeps nodes and edges in two
  cells and replaces the arrays by filtered copies; the operations modelled here mutate no
  object, so the arrays hold the objects' values.
\<close>

datatype Position = PosLeft | PosTop | PosRight | PosBottom

record handle =
  h_id :: "string option"
  h_position :: "Position option"
  h_rect :: "real \<times> real \<times> real \<times> real"

record handle_bounds =
  hb_source :: "handle list option"
  hb_target :: "handle list option"

record flow_node =
  fn_id :: string
  fn_position :: XYPosition
  fn_positionAbsolute :: "XYPosition option"
  fn_width :: "real option"
  fn_height :: "real option"
  fn_selected :: "bool option"
  fn_dragging :: "bool option"
  fn_deletable :: "bool option"
  fn_parentNode :: "string option"
  fn_handleBounds :: "handle_bounds option"

record flow_edge =
  fe_id :: string
  fe_source :: string
  fe_target :: string
  fe_sourceHandle :: "string option"
  fe_targetHandle :: "string option"
  fe_type :: "string option"
  fe_selected :: "bool option"
  fe_deletable :: "bool option"

record flow_store =
  nodesStore :: "flow_node list"
  edgesStore :: "flow_edge list"

subsection \<open>The subscriber of the delete key\<close>

text \<open>\<^verbatim>\<open>typeof x.deletable === 'boolean' ? x.deletable : true\<close>\<close>

definition deletableOrDefault :: "bool option \<Rightarrow> bool" where
  "deletableOrDefault d = (case d of None \<Rightarrow> True | Some b \<Rightarrow> b)"

text \<open>The callback of \<^verbatim>\<open>nodes.reduce\<close>; \<open>res\<close> is the accumulator. An empty string is falsy.\<close>

definition nodesToRemoveStep :: "string list \<Rightarrow> flow_node list \<Rightarrow> flow_node \<Rightarrow> flow_node list" where
  "nodesToRemoveStep nodeIds res n =
     (let parentHit =
            (fn_id n \<notin> set nodeIds \<and>
             (case fn_parentNode n of
                None \<Rightarrow> False
              | Some p \<Rightarrow> p \<noteq> [] \<and> find (\<lambda>m. fn_id m = p) res \<noteq> None));
          deletable = deletableOrDefault (fn_deletable n)
      in if deletable \<and> (fn_id n \<in> set nodeIds \<or> parentHit) then res @ [n] else res)"

definition nodesToRemove :: "string list \<Rightarrow> flow_node list \<Rightarrow> flow_node list" where
  "nodesToRemove nodeIds ns = foldl (nodesToRemoveStep nodeIds) [] ns"

text \<open>The second \<^verbatim>\<open>reduce\<close>: the ids of the edges to remove, each once.\<close>

definition edgeIdsToRemove :: "flow_edge list \<Rightarrow> string list" where
  "edgeIdsToRemove edgesToRemove =
     foldl (\<lambda>res e. if fe_id e \<in> set res then res else res @ [fe_id e]) [] edgesToRemove"

text \<open>
  The function subscribed to \<^verbatim>\<open>deleteKeyPressedStore\<close>. \<^verbatim>\<open>getConnectedEdges\<close> comes from
  \<^verbatim>\<open>@reactflow/utils\<close> and is a parameter of the model. The test
  \<^verbatim>\<open>nodesToRemove || initialHitEdges\<close> is of two arrays and always holds.
\<close>

definition deleteKeyPressedSubscriber ::
  "(flow_node list \<Rightarrow> flow_edge list \<Rightarrow> flow_edge list) \<Rightarrow> bool \<Rightarrow> flow_store \<Rightarrow> flow_store" where
  "deleteKeyPressedSubscriber getConnectedEdges deleteKeyPressed st =
     (if deleteKeyPressed
      then
        (let ns = nodesStore st;
             es = edgesStore st;
             selectedNodes = filter (\<lambda>n. truthy (fn_selected n)) ns;
             selectedEdges = filter (\<lambda>e. truthy (fe_selected e)) es;
             nodeIds = map fn_id selectedNodes;
             edgeIds = map fe_id selectedEdges;
             toRemove = nodesToRemove nodeIds ns;
             deletableEdges = filter (\<lambda>e. deletableOrDefault (fe_deletable e)) es;
             initialHitEdges = filter (\<lambda>e. fe_id e \<in> set edgeIds) deletableEdges;
             connectedEdges = getConnectedEdges toRemove deletableEdges;
             idsToRemove = edgeIdsToRemove (initialHitEdges @ connectedEdges)
         in st\<lparr>nodesStore := filter (\<lambda>n. fn_id n \<notin> set nodeIds) ns,
               edgesStore := filter (\<lambda>e. fe_id e \<notin> set idsToRemove) es\<rparr>)
      else st)"

subsection \<open>The derived store of edges with their geometry\<close>

type_synonym rect = "real \<times> real \<times> real \<times> real"

text \<open>
  Modelled from the spec: \<^verbatim>\<open>getNodeData\<close> of \<^verbatim>\<open>$lib/container/EdgeRenderer/utils\<close> is not
  among the sources. The spec renders an edge only if both endpoint nodes exist and have
  known geometry: the answer is not valid for an absent node, nor for a node whose
  absolute position, width, height or handle bounds are unknown.
\<close>

definition nodeRect :: "flow_node \<Rightarrow> rect option" where
  "nodeRect n =
     (case (fn_positionAbsolute n, fn_width n, fn_height n) of
        (Some (px, py), Some w, Some h) \<Rightarrow> Some (px, py, w, h)
      | _ \<Rightarrow> None)"

definition getNodeData :: "flow_node option \<Rightarrow> rect option \<times> handle_bounds option \<times> bool" where
  "getNodeData nd =
     (case nd of
        None \<Rightarrow> (None, None, False)
      | Some n \<Rightarrow> (nodeRect n, fn_handleBounds n, nodeRect n \<noteq> None \<and> fn_handleBounds n \<noteq> None))"

text \<open>
  Modelled from the spec: \<^verbatim>\<open>getHandle\<close> of \<^verbatim>\<open>$lib/container/EdgeRenderer/utils\<close> is not
  among the sources. By the spec an edge is rendered only if the ``referenced (or
  defaulted) handles currently exist'', and ``an edge referencing a target handle id that
  does not exist on the target node is absent'': a handle id that the edge names resolves
  to the handle of that id among the node's handles of the role, and to none when there is
  no such handle; an edge that names no handle id gets ``the first handle of that role'',
  and none when the node has no handle of the role.
\<close>

definition getHandle :: "handle list option \<Rightarrow> string option \<Rightarrow> handle option" where
  "getHandle bounds handleId =
     (case bounds of
        None \<Rightarrow> None
      | Some hs \<Rightarrow>
          (case handleId of
             Some i \<Rightarrow> find (\<lambda>h. h_id h = Some i) hs
           | None \<Rightarrow> (case hs of [] \<Rightarrow> None | h # _ \<Rightarrow> Some h)))"

text \<open>
  \<^verbatim>\<open>getEdgePositions\<close>, of the same module, computes the four coordinates; it is a
  parameter of the model.
\<close>

type_synonym edge_positions =
  "rect option \<Rightarrow> handle \<Rightarrow> Position \<Rightarrow> rect option \<Rightarrow> handle \<Rightarrow> Position \<Rightarrow> rect"

record wrap_edge_props =
  w_edge :: flow_edge
  w_type :: string
  w_coordinates :: rect
  w_sourcePosition :: Position
  w_targetPosition :: Position
  w_sourceHandleId :: "string option"
  w_targetHandleId :: "string option"

text \<open>The callback of \<^verbatim>\<open>$edges.map\<close>; \<open>None\<close> is its \<^verbatim>\<open>null\<close>.\<close>

definition wrapEdge :: "edge_positions \<Rightarrow> flow_node list \<Rightarrow> flow_edge \<Rightarrow> wrap_edge_props option" where
  "wrapEdge getEdgePositions ns e =
     (let sourceNode = find (\<lambda>n. fn_id n = fe_source e) ns;
          targetNode = find (\<lambda>n. fn_id n = fe_target e) ns;
          (sourceNodeRect, sourceHandleBounds, sourceIsValid) = getNodeData sourceNode;
          (targetNodeRect, targetHandleBounds, targetIsValid) = getNodeData targetNode
      in if \<not> sourceIsValid \<or> \<not> targetIsValid then None
         else
           (let edgeType = (case fe_type e of None \<Rightarrow> ''default''
                            | Some t \<Rightarrow> if t = [] then ''default'' else t);
                sourceHandle = getHandle (Option.bind sourceHandleBounds hb_source) (fe_sourceHandle e);
                targetHandle = getHandle (Option.bind targetHandleBounds hb_target) (fe_targetHandle e)
            in case (sourceHandle, targetHandle) of
                 (Some sh, Some th) \<Rightarrow>
                   (let sourcePosition = (case h_position sh of None \<Rightarrow> PosBottom | Some p \<Rightarrow> p);
                        targetPosition = (case h_position th of None \<Rightarrow> PosTop | Some p \<Rightarrow> p)
                    in Some \<lparr>w_edge = e, w_type = edgeType,
                             w_coordinates =
                               getEdgePositions sourceNodeRect sh sourcePosition
                                 targetNodeRect th targetPosition,
                             w_sourcePosition = sourcePosition,
                             w_targetPosition = targetPosition,
                             w_sourceHandleId = fe_sourceHandle e,
                             w_targetHandleId = fe_targetHandle e\<rparr>)
               | _ \<Rightarrow> None))"

text \<open>\<^verbatim>\<open>$edges.map(...).filter((e) => e !== null)\<close>\<close>

definition edgesWithDataStore ::
  "edge_positions \<Rightarrow> flow_store \<Rightarrow> wrap_edge_props list" where
  "edgesWithDataStore getEdgePositions st =
     List.map_filter (wrapEdge getEdgePositions (nodesStore st)) (edgesStore st)"

text \<open>
  The words of the claim about the projection: a node's geometry is known; the handles of
  a role on a node; a handle is the one an edge resolves to (``the explicitly referenced
  handle id when it exists among that node's handles of the matching role, otherwise the
  first handle of that role'').
\<close>

definition geometryKnown :: "flow_node \<Rightarrow> bool" where
  "geometryKnown n =
     (fn_positionAbsolute n \<noteq> None \<and> fn_width n \<noteq> None \<and> fn_height n \<noteq> None \<and>
      fn_handleBounds n \<noteq> None)"

definition sourceHandles :: "flow_node \<Rightarrow> handle list" where
  "sourceHandles n =
     (case Option.bind (fn_handleBounds n) hb_source of None \<Rightarrow> [] | Some hs \<Rightarrow> hs)"

definition targetHandles :: "flow_node \<Rightarrow> handle list" where
  "targetHandles n =
     (case Option.bind (fn_handleBounds n) hb_target of None \<Rightarrow> [] | Some hs \<Rightarrow> hs)"

definition resolvesTo :: "handle list \<Rightarrow> string option \<Rightarrow> handle \<Rightarrow> bool" where
  "resolvesTo hs handleId h =
     (if \<exists>i. handleId = Some i \<and> (\<exists>k \<in> set hs. h_id k = Some i)
      then h \<in> set hs \<and> h_id h = handleId
      else (case hs of [] \<Rightarrow> False | k # _ \<Rightarrow> h = k))"

section \<open>Concrete stores used to exercise the theorems\<close>

definition node0 :: node where
  "node0 = \<lparr>node_id = ''a'', position = (0, 0), computed = None, selected = None,
            dragging = None, parentId = None, deletable = None, node_type = None,
            internals = None\<rparr>"

definition edge0 :: edge where
  "edge0 = \<lparr>edge_id = ''e'', source = ''a'', target = ''b'', sourceHandle = None,
            targetHandle = None, edge_type = None, edge_selected = None,
            edge_deletable = None\<rparr>"

definition store0 :: store where
  "store0 = \<lparr>nodes = [], edges = [],
             node_heap = \<lparr>objs = (\<lambda>_. node0), fresh = 0\<rparr>,
             edge_heap = \<lparr>objs = (\<lambda>_. edge0), fresh = 0\<rparr>,
             nodeTypes = [], edgeTypes = [], width = 500, height = 500,
             nodeOrigin = (0, 0), viewport = (0, 0, 1), panZoom = None,
             minZoom = 1, maxZoom = 2, translateExtent = ((0, 0), (1000, 1000)),
             fitViewScheduled = FvsBool False, multiselectionKeyPressed = False,
             selectionRect = None, selectionRectMode = None, snapGrid = None,
             isValidConnection = (\<lambda>_. True), currentConnection = initConnectionUpdateData,
             console = [], writes = [], heldSets = []\<rparr>"

definition nodeA :: node where
  "nodeA = node0\<lparr>selected := Some True\<rparr>"

definition nodeB :: node where
  "nodeB = node0\<lparr>node_id := ''b''\<rparr>"

text \<open>Two nodes \<open>a\<close> (selected) and \<open>b\<close> at addresses 0 and 1, one edge at address 0.\<close>

definition store1 :: store where
  "store1 = store0\<lparr>nodes := [0, 1], edges := [0],
                    node_heap := \<lparr>objs = (\<lambda>_. node0)(0 := nodeA, 1 := nodeB), fresh = 2\<rparr>,
                    edge_heap := \<lparr>objs = (\<lambda>_. edge0), fresh = 1\<rparr>\<rparr>"

text \<open>The same store with its edge selected as well.\<close>

definition selectedEdge :: edge where
  "selectedEdge = edge0\<lparr>edge_selected := Some True\<rparr>"

definition store2 :: store where
  "store2 = store1\<lparr>edge_heap := \<lparr>objs = (\<lambda>_. edge0)(0 := selectedEdge), fresh = 1\<rparr>\<rparr>"

definition dragA :: drag_item where
  "dragA = \<lparr>item_id = ''a'', item_position = (5, 7),
            item_computed = Some \<lparr>positionAbsolute = Some (15, 17), computed_width = None,
                                   computed_height = None\<rparr>\<rparr>"

definition waitOptions :: fit_view_options where
  "waitOptions = \<lparr>waitForInit = Some True, fvo_nodes = None, padding = None,
                  includeHiddenNodes = None, fvo_minZoom = None, fvo_maxZoom = None,
                  duration = None\<rparr>"

text \<open>A fit-view utility that succeeds and moves the engine, and one that fails.\<close>

definition fitOk :: fit_view_util where
  "fitOk h p options = (True, (fvp_panZoom p)\<lparr>pz_transform := (5, 5, 2)\<rparr>)"

definition fitFail :: fit_view_util where
  "fitFail h p options = (False, fvp_panZoom p)"

text \<open>A dimension system that measures nothing new and hands the nodes back.\<close>

definition sameNodes :: "unit dimension_system" where
  "sameNodes updates s = (node_heap s, Some (nodes s))"

definition engine0 :: panzoom where
  "engine0 = \<lparr>pz_transform = (0, 0, 1), pz_calls = []\<rparr>"

definition scheduledStore :: store where
  "scheduledStore = store1\<lparr>panZoom := Some engine0, fitViewScheduled := FvsBool True\<rparr>"

text \<open>Values of the earlier store.\<close>

definition handleS :: handle where
  "handleS = \<lparr>h_id = None, h_position = Some PosRight, h_rect = (0, 0, 1, 1)\<rparr>"

definition handleT1 :: handle where
  "handleT1 = \<lparr>h_id = Some ''t1'', h_position = Some PosLeft, h_rect = (0, 0, 1, 1)\<rparr>"

definition handleT2 :: handle where
  "handleT2 = \<lparr>h_id = Some ''t2'', h_position = None, h_rect = (0, 5, 1, 1)\<rparr>"

definition flowNode0 :: flow_node where
  "flowNode0 = \<lparr>fn_id = ''a'', fn_position = (0, 0), fn_positionAbsolute = None,
      fn_width = None, fn_height = None, fn_selected = None, fn_dragging = None,
      fn_deletable = None, fn_parentNode = None, fn_handleBounds = None\<rparr>"

definition flowEdge0 :: flow_edge where
  "flowEdge0 = \<lparr>fe_id = ''e1'', fe_source = ''c'', fe_target = ''a'', fe_sourceHandle = None,
      fe_targetHandle = None, fe_type = None, fe_selected = None, fe_deletable = None\<rparr>"

definition measuredM :: flow_node where
  "measuredM = flowNode0\<lparr>fn_id := ''m'', fn_positionAbsolute := Some (0, 0),
      fn_width := Some 10, fn_height := Some 10,
      fn_handleBounds := Some \<lparr>hb_source = Some [handleS], hb_target = None\<rparr>\<rparr>"

definition measuredN :: flow_node where
  "measuredN = flowNode0\<lparr>fn_id := ''n'', fn_positionAbsolute := Some (50, 0),
      fn_width := Some 10, fn_height := Some 10,
      fn_handleBounds := Some \<lparr>hb_source = None, hb_target = Some [handleT1, handleT2]\<rparr>\<rparr>"

definition edgeMN :: flow_edge where
  "edgeMN = flowEdge0\<lparr>fe_id := ''mn'', fe_source := ''m'', fe_target := ''n'',
      fe_targetHandle := Some ''t2''\<rparr>"

definition edgeFirst :: flow_edge where
  "edgeFirst = flowEdge0\<lparr>fe_id := ''mn1'', fe_source := ''m'', fe_target := ''n''\<rparr>"

definition edgeNope :: flow_edge where
  "edgeNope = flowEdge0\<lparr>fe_id := ''mn0'', fe_source := ''m'', fe_target := ''n'',
      fe_targetHandle := Some ''nope''\<rparr>"

definition edgeDangling :: flow_edge where
  "edgeDangling = flowEdge0\<lparr>fe_id := ''mz'', fe_source := ''m'', fe_target := ''z''\<rparr>"

definition edgeUnmeasured :: flow_edge where
  "edgeUnmeasured = flowEdge0\<lparr>fe_id := ''ma'', fe_source := ''m'', fe_target := ''a''\<rparr>"

definition flowStore1 :: flow_store where
  "flowStore1 = \<lparr>nodesStore = [flowNode0, measuredM, measuredN],
                  edgesStore = [edgeDangling, edgeMN, edgeNope, edgeFirst, edgeUnmeasured]\<rparr>"

definition zeroPositions :: edge_positions where
  "zeroPositions sr sh sp tr th tp = (0, 0, 0, 0)"

definition lockedA :: flow_node where
  "lockedA = flowNode0\<lparr>fn_selected := Some True, fn_deletable := Some False\<rparr>"

definition parentP :: flow_node where
  "parentP = flowNode0\<lparr>fn_id := ''p'', fn_selected := Some True\<rparr>"

definition childC :: flow_node where
  "childC = flowNode0\<lparr>fn_id := ''c'', fn_parentNode := Some ''p''\<rparr>"

section \<open>Theorems\<close>

subsection \<open>The heap under allocation and assignment\<close>

lemma alloc_simps:
  "fst (alloc h v) = fresh h"
  "fresh (snd (alloc h v)) = Suc (fresh h)"
  "objs (snd (alloc h v)) = (objs h)(fresh h := v)"
  by (simp_all add: alloc_def)

lemma mapNodePositions_heap:
  "mapNodePositions D dr rs h = (rs', h') \<Longrightarrow>
     fresh h \<le> fresh h' \<and> (\<forall>r < fresh h. objs h' r = objs h r)"
proof (induction rs arbitrary: h rs' h')
  case Nil
  then show ?case by simp
next
  case (Cons r rs)
  show ?case
  proof (cases "find (\<lambda>ndi. item_id ndi = node_id (objs h r)) D")
    case None
    with Cons.prems obtain rs2 where "mapNodePositions D dr rs h = (rs2, h')"
      by (auto split: prod.splits)
    from Cons.IH [OF this] show ?thesis .
  next
    case (Some ndi)
    define h1 where "h1 = snd (alloc h (movedNode (objs h r) ndi dr))"
    from Some Cons.prems obtain rs2 where "mapNodePositions D dr rs h1 = (rs2, h')"
      by (auto simp: h1_def split: prod.splits)
    from Cons.IH [OF this] have "fresh h1 \<le> fresh h'" "\<forall>r < fresh h1. objs h' r = objs h1 r"
      by simp_all
    moreover have "fresh h1 = Suc (fresh h)" "objs h1 = (objs h)(fresh h := movedNode (objs h r) ndi dr)"
      by (simp_all add: h1_def alloc_simps)
    ultimately show ?thesis by auto
  qed
qed

lemma mapNodePositions_pointwise:
  "mapNodePositions D dr rs h = (rs', h') \<Longrightarrow> \<forall>r \<in> set rs. r < fresh h \<Longrightarrow>
     list_all2 (\<lambda>r r'.
        case find (\<lambda>ndi. item_id ndi = node_id (objs h r)) D of
          None \<Rightarrow> r' = r
        | Some ndi \<Rightarrow> fresh h \<le> r' \<and> r' < fresh h' \<and> objs h' r' = movedNode (objs h r) ndi dr)
       rs rs'"
proof (induction rs arbitrary: h rs' h')
  case Nil
  then show ?case by simp
next
  case (Cons r rs)
  show ?case
  proof (cases "find (\<lambda>ndi. item_id ndi = node_id (objs h r)) D")
    case None
    with Cons.prems obtain rs2 where rec: "mapNodePositions D dr rs h = (rs2, h')"
      and rs': "rs' = r # rs2"
      by (auto split: prod.splits)
    from Cons.IH [OF rec] Cons.prems(2) show ?thesis
      by (simp add: rs' None)
  next
    case (Some ndi)
    define h1 where "h1 = snd (alloc h (movedNode (objs h r) ndi dr))"
    have h1: "fresh h1 = Suc (fresh h)" "objs h1 = (objs h)(fresh h := movedNode (objs h r) ndi dr)"
      by (simp_all add: h1_def alloc_simps)
    from Some Cons.prems obtain rs2 where rec: "mapNodePositions D dr rs h1 = (rs2, h')"
      and rs': "rs' = fresh h # rs2"
      by (auto simp: h1_def alloc_def split: prod.splits)
    from mapNodePositions_heap [OF rec]
    have mono: "fresh h1 \<le> fresh h'" and keep: "\<forall>r < fresh h1. objs h' r = objs h1 r"
      by simp_all
    have wf1: "\<forall>r \<in> set rs. r < fresh h1"
      using Cons.prems(2) h1 by auto
    have same: "\<forall>r \<in> set rs. objs h1 r = objs h r"
      using Cons.prems(2) h1 by auto
    have tail: "list_all2 (\<lambda>r r'.
        case find (\<lambda>ndi. item_id ndi = node_id (objs h r)) D of
          None \<Rightarrow> r' = r
        | Some ndi \<Rightarrow> fresh h \<le> r' \<and> r' < fresh h' \<and> objs h' r' = movedNode (objs h r) ndi dr)
       rs rs2"
      using Cons.IH [OF rec wf1]
    proof (rule list.rel_mono_strong)
      fix x y
      assume x: "x \<in> set rs"
      assume "case find (\<lambda>ndi. item_id ndi = node_id (objs h1 x)) D of
          None \<Rightarrow> y = x
        | Some ndi \<Rightarrow> fresh h1 \<le> y \<and> y < fresh h' \<and> objs h' y = movedNode (objs h1 x) ndi dr"
      then show "case find (\<lambda>ndi. item_id ndi = node_id (objs h x)) D of
          None \<Rightarrow> y = x
        | Some ndi \<Rightarrow> fresh h \<le> y \<and> y < fresh h' \<and> objs h' y = movedNode (objs h x) ndi dr"
        using same x h1 by (auto split: option.splits)
    qed
    have head: "fresh h \<le> fresh h \<and> fresh h < fresh h' \<and>
        objs h' (fresh h) = movedNode (objs h r) ndi dr"
      using mono keep h1 by auto
    show ?thesis
      using head tail by (simp add: rs' Some)
  qed
qed


lemma movedNode_fields:
  "node_id (movedNode n ndi dr) = node_id n"
  "dragging (movedNode n ndi dr) = Some dr"
  "position (movedNode n ndi dr) = item_position ndi"
  "Option.bind (computed (movedNode n ndi dr)) positionAbsolute =
     Option.bind (item_computed ndi) positionAbsolute"
  by (simp_all add: movedNode_def split: option.splits)

lemma mutate_simps:
  "objs (mutate h r f) = (objs h)(r := f (objs h r))"
  "fresh (mutate h r f) = fresh h"
  by (simp_all add: mutate_def)

lemma mutateAll_objs:
  assumes idem: "\<And>x. f (f x) = f x"
  shows "objs (mutateAll f rs h) r = (if r \<in> set rs then f (objs h r) else objs h r)"
  unfolding mutateAll_def
proof (induction rs arbitrary: h)
  case Nil
  then show ?case by simp
next
  case (Cons a rs)
  show ?case
    by (simp add: Cons.IH mutate_simps idem)
qed

lemma mutateAll_fresh: "fresh (mutateAll f rs h) = fresh h"
  unfolding mutateAll_def
  by (induction rs arbitrary: h) (simp_all add: mutate_simps)

lemma selectNode_idem: "selectNode m ids (selectNode m ids n) = selectNode m ids n"
  by (simp add: selectNode_def)

lemma selectEdge_idem: "selectEdge m ids (selectEdge m ids e) = selectEdge m ids e"
  by (simp add: selectEdge_def)

lemma unselectNode_idem: "unselectNode (unselectNode n) = unselectNode n"
  by (simp add: unselectNode_def)

lemma unselectEdge_idem: "unselectEdge (unselectEdge e) = unselectEdge e"
  by (simp add: unselectEdge_def)

lemma resetSelectedElements_fold:
  assumes clears: "\<And>x. \<not> truthy (sel (clear x))"
  shows "foldl (\<lambda>(elementsChanged, h) r.
              if truthy (sel (objs h r)) then (True, mutate h r clear)
              else (elementsChanged, h)) (c, h) rs =
         (c \<or> (\<exists>r \<in> set rs. truthy (sel (objs h r))),
          h\<lparr>objs := (\<lambda>r. if r \<in> set rs \<and> truthy (sel (objs h r)) then clear (objs h r)
                         else objs h r)\<rparr>)"
proof (induction rs arbitrary: c h)
  case Nil
  then show ?case by simp
next
  case (Cons a rs)
  show ?case
  proof (cases "truthy (sel (objs h a))")
    case True
    have "(\<lambda>r. if r \<in> set rs \<and> truthy (sel (objs (mutate h a clear) r))
               then clear (objs (mutate h a clear) r) else objs (mutate h a clear) r) =
          (\<lambda>r. if r \<in> set (a # rs) \<and> truthy (sel (objs h r)) then clear (objs h r) else objs h r)"
      using True clears by (auto simp: mutate_simps fun_eq_iff)
    then show ?thesis
      using True by (simp add: Cons.IH) (simp add: mutate_def)
  next
    case False
    have "(\<lambda>r. if r \<in> set rs \<and> truthy (sel (objs h r)) then clear (objs h r) else objs h r) =
          (\<lambda>r. if r \<in> set (a # rs) \<and> truthy (sel (objs h r)) then clear (objs h r) else objs h r)"
      using False by (auto simp: fun_eq_iff)
    then show ?thesis
      using False by (simp add: Cons.IH)
  qed
qed

lemma resetSelectedElements_eq:
  assumes clears: "\<And>x. \<not> truthy (sel (clear x))"
  shows "resetSelectedElements sel clear rs h =
         ((\<exists>r \<in> set rs. truthy (sel (objs h r))),
          h\<lparr>objs := (\<lambda>r. if r \<in> set rs \<and> truthy (sel (objs h r)) then clear (objs h r)
                         else objs h r)\<rparr>)"
  unfolding resetSelectedElements_def
  using resetSelectedElements_fold [where sel = sel and clear = clear and c = False and h = h and rs = rs] clears
  by simp


lemmas mutateAll_selectNode = mutateAll_objs [where f = "selectNode m ids", OF selectNode_idem] for m ids
lemmas mutateAll_selectEdge = mutateAll_objs [where f = "selectEdge m ids", OF selectEdge_idem] for m ids
lemmas mutateAll_unselectNode = mutateAll_objs [where f = unselectNode, OF unselectNode_idem]
lemmas mutateAll_unselectEdge = mutateAll_objs [where f = unselectEdge, OF unselectEdge_idem]

lemma addSelectedNodes_effect:
  "nodes (addSelectedNodes ids s) = nodes s"
  "edges (addSelectedNodes ids s) = edges s"
  "nodeAt (addSelectedNodes ids s) r =
     (if r \<in> set (nodes s) then selectNode (multiselectionKeyPressed s) ids (nodeAt s r)
      else nodeAt s r)"
  "edgeAt (addSelectedNodes ids s) e =
     (if \<not> multiselectionKeyPressed s \<and> e \<in> set (edges s) then unselectEdge (edgeAt s e)
      else edgeAt s e)"
  by (simp_all add: addSelectedNodes_def Let_def nodeAt_def edgeAt_def
      mutateAll_selectNode mutateAll_unselectEdge)

lemma addSelectedEdges_effect:
  "nodes (addSelectedEdges ids s) = nodes s"
  "edges (addSelectedEdges ids s) = edges s"
  "edgeAt (addSelectedEdges ids s) e =
     (if e \<in> set (edges s) then selectEdge (multiselectionKeyPressed s) ids (edgeAt s e)
      else edgeAt s e)"
  "nodeAt (addSelectedEdges ids s) r =
     (if \<not> multiselectionKeyPressed s \<and> r \<in> set (nodes s) then unselectNode (nodeAt s r)
      else nodeAt s r)"
  by (simp_all add: addSelectedEdges_def Let_def nodeAt_def edgeAt_def
      mutateAll_selectEdge mutateAll_unselectNode)

lemma resetNodes_eq:
  "resetSelectedElements selected unselectNode rs h =
     ((\<exists>r \<in> set rs. truthy (selected (objs h r))),
      h\<lparr>objs := (\<lambda>r. if r \<in> set rs \<and> truthy (selected (objs h r)) then unselectNode (objs h r)
                     else objs h r)\<rparr>)"
  by (rule resetSelectedElements_eq) (simp add: unselectNode_def)

lemma resetEdges_eq:
  "resetSelectedElements edge_selected unselectEdge rs h =
     ((\<exists>r \<in> set rs. truthy (edge_selected (objs h r))),
      h\<lparr>objs := (\<lambda>r. if r \<in> set rs \<and> truthy (edge_selected (objs h r)) then unselectEdge (objs h r)
                     else objs h r)\<rparr>)"
  by (rule resetSelectedElements_eq) (simp add: unselectEdge_def)

lemma edgesOrAll_frame:
  "edgesOrAll params (s\<lparr>node_heap := h\<rparr>) = edgesOrAll params s"
  "edgesOrAll params (s\<lparr>nodes := ns\<rparr>) = edgesOrAll params s"
  "edgesOrAll params (s\<lparr>writes := w\<rparr>) = edgesOrAll params s"
  "edgesOrAll params (s\<lparr>heldSets := w\<rparr>) = edgesOrAll params s"
  by (simp_all add: edgesOrAll_def split: option.splits)

lemma unselectNodesAndEdges_effect:
  "nodes (unselectNodesAndEdges params s) = nodes s"
  "edges (unselectNodesAndEdges params s) = edges s"
  "writes (unselectNodesAndEdges params s) =
     writes s @
     (if \<exists>r \<in> set (nodesOrAll params s). truthy (selected (nodeAt s r)) then [NodesCell] else []) @
     (if \<exists>e \<in> set (edgesOrAll params s). truthy (edge_selected (edgeAt s e)) then [EdgesCell] else [])"
  "heldSets (unselectNodesAndEdges params s) =
     heldSets s @
     (if \<exists>r \<in> set (nodesOrAll params s). truthy (selected (nodeAt s r)) then [NodesCell] else []) @
     (if \<exists>e \<in> set (edgesOrAll params s). truthy (edge_selected (edgeAt s e)) then [EdgesCell] else [])"
  "nodeAt (unselectNodesAndEdges params s) r =
     (if r \<in> set (nodesOrAll params s) \<and> truthy (selected (nodeAt s r))
      then unselectNode (nodeAt s r) else nodeAt s r)"
  "edgeAt (unselectNodesAndEdges params s) e =
     (if e \<in> set (edgesOrAll params s) \<and> truthy (edge_selected (edgeAt s e))
      then unselectEdge (edgeAt s e) else edgeAt s e)"
  by (auto simp: unselectNodesAndEdges_def resetNodes_eq resetEdges_eq Let_def nodeAt_def
      edgeAt_def edgesOrAll_frame)

lemma resetSelectedElements_Nil: "resetSelectedElements sel clear [] h = (False, h)"
  by (simp add: resetSelectedElements_def)


lemma store1_observed:
  "nodes store1 = [0, 1]"
  "edges store1 = [0]"
  "fresh (node_heap store1) = 2"
  "nodeAt store1 0 = nodeA"
  "nodeAt store1 (Suc 0) = nodeB"
  "edgeAt store1 0 = edge0"
  "multiselectionKeyPressed store1 = False"
  "panZoom store1 = None"
  "writes store1 = []"
  "console store1 = []"
  by (simp_all add: store1_def store0_def nodeAt_def edgeAt_def)

lemma store1_ids:
  "idsOfNodes store1 = {''a'', ''b''}"
  "selectedNodeIds store1 = {''a''}"
  "idsOfEdges store1 = {''e''}"
  "selectedEdgeIds store1 = {}"
  by (auto simp: idsOfNodes_def selectedNodeIds_def idsOfEdges_def selectedEdgeIds_def store1_observed
      nodeA_def nodeB_def node0_def edge0_def)

subsection \<open>Moving nodes keeps the others\<close>

text \<open>
  C1. \<^verbatim>\<open>updateNodePositions(D, dragging)\<close> on a store whose node array holds allocated
  objects: the new array has the same length and the same ids in the same order; no
  object that existed before is changed; a node with no item of \<open>D\<close> of its id is the
  very same object (same address); a node with such an item is a newly allocated object,
  equal to the old one but for \<^verbatim>\<open>dragging\<close> (the flag given, \<^verbatim>\<open>false\<close> by default),
  \<^verbatim>\<open>position\<close> and \<^verbatim>\<open>computed.positionAbsolute\<close>, which come from the first item
  of \<open>D\<close> with that id.
\<close>

theorem updateNodePositions_identity:
  assumes wf: "\<forall>r \<in> set (nodes s). r < fresh (node_heap s)"
  shows "let s' = updateNodePositions D dragging_arg s;
             h = node_heap s; h' = node_heap s';
             dr = (case dragging_arg of None \<Rightarrow> False | Some b \<Rightarrow> b)
         in length (nodes s') = length (nodes s) \<and>
            map (\<lambda>r. node_id (objs h' r)) (nodes s') = map (\<lambda>r. node_id (objs h r)) (nodes s) \<and>
            (\<forall>r < fresh h. objs h' r = objs h r) \<and>
            (\<forall>i < length (nodes s).
               (case find (\<lambda>ndi. item_id ndi = node_id (objs h (nodes s ! i))) D of
                  None \<Rightarrow> nodes s' ! i = nodes s ! i
                | Some ndi \<Rightarrow>
                    fresh h \<le> nodes s' ! i \<and> nodes s' ! i \<notin> set (nodes s) \<and>
                    objs h' (nodes s' ! i) = movedNode (objs h (nodes s ! i)) ndi dr \<and>
                    dragging (objs h' (nodes s' ! i)) = Some dr \<and>
                    position (objs h' (nodes s' ! i)) = item_position ndi \<and>
                    Option.bind (computed (objs h' (nodes s' ! i))) positionAbsolute =
                      Option.bind (item_computed ndi) positionAbsolute))"
proof -
  define dr where "dr = (case dragging_arg of None \<Rightarrow> False | Some b \<Rightarrow> b)"
  define h where "h = node_heap s"
  obtain ns h' where run: "mapNodePositions D dr (nodes s) h = (ns, h')"
    by (cases "mapNodePositions D dr (nodes s) h")
  have s': "nodes (updateNodePositions D dragging_arg s) = ns"
    "node_heap (updateNodePositions D dragging_arg s) = h'"
    using run by (simp_all add: updateNodePositions_def dr_def h_def)
  have wf': "\<forall>r \<in> set (nodes s). r < fresh h"
    using wf by (simp add: h_def)
  note pw = mapNodePositions_pointwise [OF run wf']
  have len: "length ns = length (nodes s)"
    using pw by (simp add: list_all2_lengthD)
  have keep: "\<forall>r < fresh h. objs h' r = objs h r"
    using mapNodePositions_heap [OF run] by simp
  have nth: "\<And>i. i < length (nodes s) \<Longrightarrow>
      (case find (\<lambda>ndi. item_id ndi = node_id (objs h (nodes s ! i))) D of
         None \<Rightarrow> ns ! i = nodes s ! i
       | Some ndi \<Rightarrow> fresh h \<le> ns ! i \<and> ns ! i < fresh h' \<and>
           objs h' (ns ! i) = movedNode (objs h (nodes s ! i)) ndi dr)"
    using pw by (simp add: list_all2_conv_all_nth)
  have ids: "map (\<lambda>r. node_id (objs h' r)) ns = map (\<lambda>r. node_id (objs h r)) (nodes s)"
  proof (rule nth_equalityI)
    show "length (map (\<lambda>r. node_id (objs h' r)) ns) = length (map (\<lambda>r. node_id (objs h r)) (nodes s))"
      by (simp add: len)
  next
    fix i assume "i < length (map (\<lambda>r. node_id (objs h' r)) ns)"
    then have i: "i < length (nodes s)" by (simp add: len)
    then have "nodes s ! i < fresh h" using wf' by simp
    with nth [OF i] keep i show "map (\<lambda>r. node_id (objs h' r)) ns ! i = map (\<lambda>r. node_id (objs h r)) (nodes s) ! i"
      by (auto simp: len movedNode_fields split: option.splits)
  qed
  have fresh_new: "\<And>r. fresh h \<le> r \<Longrightarrow> r \<notin> set (nodes s)"
    using wf' by auto
  have main: "\<forall>i < length (nodes s).
      (case find (\<lambda>ndi. item_id ndi = node_id (objs h (nodes s ! i))) D of
         None \<Rightarrow> ns ! i = nodes s ! i
       | Some ndi \<Rightarrow>
           fresh h \<le> ns ! i \<and> ns ! i \<notin> set (nodes s) \<and>
           objs h' (ns ! i) = movedNode (objs h (nodes s ! i)) ndi dr \<and>
           dragging (objs h' (ns ! i)) = Some dr \<and>
           position (objs h' (ns ! i)) = item_position ndi \<and>
           Option.bind (computed (objs h' (ns ! i))) positionAbsolute =
             Option.bind (item_computed ndi) positionAbsolute)"
  proof (intro allI impI)
    fix i assume i: "i < length (nodes s)"
    from nth [OF i] fresh_new show "case find (\<lambda>ndi. item_id ndi = node_id (objs h (nodes s ! i))) D of
         None \<Rightarrow> ns ! i = nodes s ! i
       | Some ndi \<Rightarrow>
           fresh h \<le> ns ! i \<and> ns ! i \<notin> set (nodes s) \<and>
           objs h' (ns ! i) = movedNode (objs h (nodes s ! i)) ndi dr \<and>
           dragging (objs h' (ns ! i)) = Some dr \<and>
           position (objs h' (ns ! i)) = item_position ndi \<and>
           Option.bind (computed (objs h' (ns ! i))) positionAbsolute =
             Option.bind (item_computed ndi) positionAbsolute"
      by (auto simp: movedNode_fields split: option.splits)
  qed
  show ?thesis
    unfolding Let_def s' dr_def [symmetric] h_def [symmetric]
    using len ids keep main by blast
qed

theorem updateNodePositions_identity_witness:
  "nodes store1 = [0, 1] \<and> fresh (node_heap store1) = 2 \<and>
   length (nodes (updateNodePositions [dragA] (Some True) store1)) = 2 \<and>
   nodes (updateNodePositions [dragA] (Some True) store1) ! 1 = 1 \<and>
   nodeAt (updateNodePositions [dragA] (Some True) store1) 1 = nodeB \<and>
   nodes (updateNodePositions [dragA] (Some True) store1) ! 0 = 2 \<and>
   nodeAt (updateNodePositions [dragA] (Some True) store1) 2 =
     nodeA\<lparr>dragging := Some True, position := (5, 7),
            computed := Some \<lparr>positionAbsolute = Some (15, 17), computed_width = None,
                              computed_height = None\<rparr>\<rparr>"
proof -
  have wf: "\<forall>r \<in> set (nodes store1). r < fresh (node_heap store1)"
    by (simp add: store1_observed)
  have run: "mapNodePositions [dragA] True [0, 1] (node_heap store1) =
      ([2, 1], \<lparr>objs = (objs (node_heap store1))(2 := movedNode nodeA dragA True), fresh = 3\<rparr>)"
    by (simp add: store1_def alloc_def dragA_def nodeA_def nodeB_def node0_def)
  have moved: "movedNode nodeA dragA True =
      nodeA\<lparr>dragging := Some True, position := (5, 7),
             computed := Some \<lparr>positionAbsolute = Some (15, 17), computed_width = None,
                               computed_height = None\<rparr>\<rparr>"
    by (simp add: movedNode_def dragA_def nodeA_def node0_def emptyComputed_def)
  have old: "objs (node_heap store1) 1 = nodeB"
    by (simp add: store1_def)
  from updateNodePositions_identity [OF wf, of "[dragA]" "Some True"]
  have "length (nodes (updateNodePositions [dragA] (Some True) store1)) = length (nodes store1)"
    by (simp add: Let_def)
  then show ?thesis
    using run moved old
    by (simp add: updateNodePositions_def store1_observed nodeAt_def)
qed

subsection \<open>The delete key in the earlier store\<close>

text \<open>
  Whatever the store and whatever \<^verbatim>\<open>getConnectedEdges\<close> answers, the nodes left by the
  subscriber are those whose id is not the id of a selected node; neither \<^verbatim>\<open>deletable\<close>
  nor \<^verbatim>\<open>parentNode\<close> has a part in it.
\<close>

lemma delete_key_nodes_by_selection:
  "nodesStore (deleteKeyPressedSubscriber gce True st) =
     filter (\<lambda>n. fn_id n \<notin> fn_id ` {m \<in> set (nodesStore st). truthy (fn_selected m)})
       (nodesStore st)"
  by (simp add: deleteKeyPressedSubscriber_def Let_def)

text \<open>
  C2. The subscriber of \<^verbatim>\<open>deleteKeyPressedStore\<close> at three nodes and no edge: \<open>a\<close> selected
  with \<^verbatim>\<open>deletable: false\<close>, \<open>p\<close> selected, \<open>c\<close> a child of \<open>p\<close> and not selected.
  \<^verbatim>\<open>nodesToRemove\<close> is computed as \<open>p\<close> and \<open>c\<close>, the nodes the claim names, and is handed
  to \<^verbatim>\<open>getConnectedEdges\<close> only: the node collection is filtered by the ids of the selected
  nodes, so \<open>a\<close> and \<open>p\<close> are removed and \<open>c\<close> stays.
\<close>

theorem delete_key_removes_selected_only:
  "nodesToRemove [''a'', ''p''] [lockedA, parentP, childC] = [parentP, childC] \<and>
   deleteKeyPressedSubscriber gce True
     \<lparr>nodesStore = [lockedA, parentP, childC], edgesStore = []\<rparr> =
     \<lparr>nodesStore = [childC], edgesStore = []\<rparr>"
proof -
  have ids: "fn_id lockedA = ''a''" "fn_id parentP = ''p''" "fn_id childC = ''c''"
    and sel: "truthy (fn_selected lockedA)" "truthy (fn_selected parentP)"
      "\<not> truthy (fn_selected childC)"
    and del: "\<not> deletableOrDefault (fn_deletable lockedA)"
      "deletableOrDefault (fn_deletable parentP)" "deletableOrDefault (fn_deletable childC)"
    and par: "fn_parentNode lockedA = None" "fn_parentNode parentP = None"
      "fn_parentNode childC = Some ''p''"
    by (simp_all add: lockedA_def parentP_def childC_def flowNode0_def deletableOrDefault_def)
  have rem: "nodesToRemove [''a'', ''p''] [lockedA, parentP, childC] = [parentP, childC]"
    by (simp add: nodesToRemove_def nodesToRemoveStep_def ids del par)
  have "deleteKeyPressedSubscriber gce True
     \<lparr>nodesStore = [lockedA, parentP, childC], edgesStore = []\<rparr> =
     \<lparr>nodesStore = [childC], edgesStore = []\<rparr>"
    unfolding deleteKeyPressedSubscriber_def Let_def
    by (simp add: ids sel)
  with rem show ?thesis by simp
qed

subsection \<open>Adding to the selection\<close>

text \<open>
  C3. \<^verbatim>\<open>addSelectedNodes(ids)\<close> keeps the arrays and the ids. With the multi-select key
  held, a node of the collection is selected afterwards exactly when it was selected
  before or its id is in \<open>ids\<close>, so the selected ids are the old ones together with those
  of \<open>ids\<close> that name a node, and no edge object is touched. Without the key, a node is
  selected afterwards exactly when its id is in \<open>ids\<close>, and every edge of the collection
  has \<^verbatim>\<open>selected\<close> set to \<^verbatim>\<open>false\<close>. \<^verbatim>\<open>addSelectedEdges(ids)\<close> does the same with nodes
  and edges exchanged.
\<close>

theorem addSelectedNodes_selection:
  "(let s' = addSelectedNodes ids s in
      nodes s' = nodes s \<and> edges s' = edges s \<and> idsOfNodes s' = idsOfNodes s \<and>
      (if multiselectionKeyPressed s
       then (\<forall>r \<in> set (nodes s).
               truthy (selected (nodeAt s' r)) =
                 (truthy (selected (nodeAt s r)) \<or> node_id (nodeAt s r) \<in> set ids)) \<and>
            selectedNodeIds s' = selectedNodeIds s \<union> (set ids \<inter> idsOfNodes s) \<and>
            edge_heap s' = edge_heap s
       else (\<forall>r \<in> set (nodes s).
               truthy (selected (nodeAt s' r)) = (node_id (nodeAt s r) \<in> set ids)) \<and>
            selectedNodeIds s' = set ids \<inter> idsOfNodes s \<and>
            (\<forall>e \<in> set (edges s). edge_selected (edgeAt s' e) = Some False) \<and>
            selectedEdgeIds s' = {})) \<and>
   (let s' = addSelectedEdges ids s in
      nodes s' = nodes s \<and> edges s' = edges s \<and> idsOfEdges s' = idsOfEdges s \<and>
      (if multiselectionKeyPressed s
       then (\<forall>e \<in> set (edges s).
               truthy (edge_selected (edgeAt s' e)) =
                 (truthy (edge_selected (edgeAt s e)) \<or> edge_id (edgeAt s e) \<in> set ids)) \<and>
            selectedEdgeIds s' = selectedEdgeIds s \<union> (set ids \<inter> idsOfEdges s) \<and>
            node_heap s' = node_heap s
       else (\<forall>e \<in> set (edges s).
               truthy (edge_selected (edgeAt s' e)) = (edge_id (edgeAt s e) \<in> set ids)) \<and>
            selectedEdgeIds s' = set ids \<inter> idsOfEdges s \<and>
            (\<forall>r \<in> set (nodes s). selected (nodeAt s' r) = Some False) \<and>
            selectedNodeIds s' = {}))"
proof -
  have hn: "multiselectionKeyPressed s \<Longrightarrow> edge_heap (addSelectedNodes ids s) = edge_heap s"
    by (simp add: addSelectedNodes_def Let_def)
  have he: "multiselectionKeyPressed s \<Longrightarrow> node_heap (addSelectedEdges ids s) = node_heap s"
    by (simp add: addSelectedEdges_def Let_def)
  have a: "let s' = addSelectedNodes ids s in
      nodes s' = nodes s \<and> edges s' = edges s \<and> idsOfNodes s' = idsOfNodes s \<and>
      (if multiselectionKeyPressed s
       then (\<forall>r \<in> set (nodes s).
               truthy (selected (nodeAt s' r)) =
                 (truthy (selected (nodeAt s r)) \<or> node_id (nodeAt s r) \<in> set ids)) \<and>
            selectedNodeIds s' = selectedNodeIds s \<union> (set ids \<inter> idsOfNodes s) \<and>
            edge_heap s' = edge_heap s
       else (\<forall>r \<in> set (nodes s).
               truthy (selected (nodeAt s' r)) = (node_id (nodeAt s r) \<in> set ids)) \<and>
            selectedNodeIds s' = set ids \<inter> idsOfNodes s \<and>
            (\<forall>e \<in> set (edges s). edge_selected (edgeAt s' e) = Some False) \<and>
            selectedEdgeIds s' = {})"
    unfolding Let_def
    using hn
    by (auto simp: addSelectedNodes_effect idsOfNodes_def selectedNodeIds_def selectedEdgeIds_def
        selectNode_def unselectEdge_def)
  have b: "let s' = addSelectedEdges ids s in
      nodes s' = nodes s \<and> edges s' = edges s \<and> idsOfEdges s' = idsOfEdges s \<and>
      (if multiselectionKeyPressed s
       then (\<forall>e \<in> set (edges s).
               truthy (edge_selected (edgeAt s' e)) =
                 (truthy (edge_selected (edgeAt s e)) \<or> edge_id (edgeAt s e) \<in> set ids)) \<and>
            selectedEdgeIds s' = selectedEdgeIds s \<union> (set ids \<inter> idsOfEdges s) \<and>
            node_heap s' = node_heap s
       else (\<forall>e \<in> set (edges s).
               truthy (edge_selected (edgeAt s' e)) = (edge_id (edgeAt s e) \<in> set ids)) \<and>
            selectedEdgeIds s' = set ids \<inter> idsOfEdges s \<and>
            (\<forall>r \<in> set (nodes s). selected (nodeAt s' r) = Some False) \<and>
            selectedNodeIds s' = {})"
    unfolding Let_def
    using he
    by (auto simp: addSelectedEdges_effect idsOfEdges_def selectedNodeIds_def selectedEdgeIds_def
        selectEdge_def unselectNode_def)
  from a b show ?thesis by blast
qed

theorem addSelectedNodes_selection_witness:
  "selectedNodeIds store1 = {''a''} \<and>
   selectedNodeIds (addSelectedNodes [''b''] store1) = {''b''} \<and>
   selectedEdgeIds (addSelectedNodes [''b''] store1) = {} \<and>
   selectedNodeIds (addSelectedNodes [''b''] (store1\<lparr>multiselectionKeyPressed := True\<rparr>)) =
     {''a'', ''b''} \<and>
   selectedEdgeIds (addSelectedEdges [''e''] store1) = {''e''} \<and>
   selectedNodeIds (addSelectedEdges [''e''] store1) = {}"
proof -
  let ?m = "store1\<lparr>multiselectionKeyPressed := True\<rparr>"
  have m: "multiselectionKeyPressed ?m" "idsOfNodes ?m = idsOfNodes store1"
    "selectedNodeIds ?m = selectedNodeIds store1"
    by (simp_all add: idsOfNodes_def selectedNodeIds_def nodeAt_def)
  from addSelectedNodes_selection [of "[''b'']" store1]
  have a: "selectedNodeIds (addSelectedNodes [''b''] store1) = set [''b''] \<inter> idsOfNodes store1"
    "selectedEdgeIds (addSelectedNodes [''b''] store1) = {}"
    by (simp_all add: Let_def store1_observed)
  from addSelectedNodes_selection [of "[''b'']" ?m] m
  have b: "selectedNodeIds (addSelectedNodes [''b''] ?m) =
           selectedNodeIds store1 \<union> (set [''b''] \<inter> idsOfNodes store1)"
    by (simp add: Let_def)
  from addSelectedNodes_selection [of "[''e'']" store1]
  have c: "selectedEdgeIds (addSelectedEdges [''e''] store1) = set [''e''] \<inter> idsOfEdges store1"
    "selectedNodeIds (addSelectedEdges [''e''] store1) = {}"
    by (simp_all add: Let_def store1_observed)
  show ?thesis
    using a b c by (auto simp: store1_ids)
qed

subsection \<open>The edges with their geometry\<close>

lemma find_SomeD: "find P xs = Some x \<Longrightarrow> x \<in> set xs \<and> P x"
  by (induction xs) (auto split: if_splits)

lemma getHandle_Some:
  assumes "getHandle (Some hs) hid = Some h"
  shows "h \<in> set hs \<and> (\<forall>i. hid = Some i \<longrightarrow> h_id h = Some i) \<and>
         (hid = None \<longrightarrow> (case hs of [] \<Rightarrow> False | k # _ \<Rightarrow> h = k))"
proof (cases hid)
  case None
  with assms show ?thesis
    by (cases hs) (simp_all add: getHandle_def)
next
  case (Some i)
  with assms have "find (\<lambda>h. h_id h = Some i) hs = Some h"
    by (simp add: getHandle_def)
  from find_SomeD [OF this] Some show ?thesis
    by simp
qed

lemma getHandle_Some_resolvesTo:
  assumes "getHandle (Some hs) hid = Some h"
  shows "resolvesTo hs hid h"
proof -
  note g = getHandle_Some [OF assms]
  show ?thesis
  proof (cases hid)
    case None
    with g show ?thesis
      by (auto simp: resolvesTo_def split: list.splits)
  next
    case (Some i)
    with g have "h \<in> set hs" "h_id h = Some i"
      by simp_all
    with Some show ?thesis
      by (auto simp: resolvesTo_def)
  qed
qed

lemma getHandle_None:
  "getHandle (Some hs) hid = None \<longleftrightarrow>
     \<not> (case hid of None \<Rightarrow> hs \<noteq> [] | Some i \<Rightarrow> \<exists>k \<in> set hs. h_id k = Some i)"
  by (cases hid; cases hs) (auto simp: getHandle_def find_None_iff)

lemma getHandle_source:
  "getHandle (Option.bind (fn_handleBounds n) hb_source) hid = getHandle (Some (sourceHandles n)) hid"
  by (cases "Option.bind (fn_handleBounds n) hb_source"; cases hid)
    (simp_all add: getHandle_def sourceHandles_def)

lemma getHandle_target:
  "getHandle (Option.bind (fn_handleBounds n) hb_target) hid = getHandle (Some (targetHandles n)) hid"
  by (cases "Option.bind (fn_handleBounds n) hb_target"; cases hid)
    (simp_all add: getHandle_def targetHandles_def)

lemma nodeRect_known:
  "(nodeRect n \<noteq> None \<and> fn_handleBounds n \<noteq> None) = geometryKnown n"
  by (auto simp: nodeRect_def geometryKnown_def split: option.splits prod.splits)

text \<open>The callback, by the nodes found and the handles resolved.\<close>

lemma wrapEdge_cases:
  "wrapEdge gep ns e =
     (case (find (\<lambda>n. fn_id n = fe_source e) ns, find (\<lambda>n. fn_id n = fe_target e) ns) of
        (Some sn, Some tn) \<Rightarrow>
          if geometryKnown sn \<and> geometryKnown tn
          then (case (getHandle (Some (sourceHandles sn)) (fe_sourceHandle e),
                      getHandle (Some (targetHandles tn)) (fe_targetHandle e)) of
                  (Some sh, Some th) \<Rightarrow>
                    Some \<lparr>w_edge = e,
                          w_type = (case fe_type e of None \<Rightarrow> ''default''
                                    | Some t \<Rightarrow> if t = [] then ''default'' else t),
                          w_coordinates =
                            gep (nodeRect sn) sh
                              (case h_position sh of None \<Rightarrow> PosBottom | Some p \<Rightarrow> p)
                              (nodeRect tn) th
                              (case h_position th of None \<Rightarrow> PosTop | Some p \<Rightarrow> p),
                          w_sourcePosition =
                            (case h_position sh of None \<Rightarrow> PosBottom | Some p \<Rightarrow> p),
                          w_targetPosition =
                            (case h_position th of None \<Rightarrow> PosTop | Some p \<Rightarrow> p),
                          w_sourceHandleId = fe_sourceHandle e,
                          w_targetHandleId = fe_targetHandle e\<rparr>
                | _ \<Rightarrow> None)
          else None
      | _ \<Rightarrow> None)"
proof (cases "find (\<lambda>n. fn_id n = fe_source e) ns")
  case None
  then show ?thesis
    by (simp add: wrapEdge_def getNodeData_def Let_def split: prod.splits)
next
  case sn: (Some sn)
  show ?thesis
  proof (cases "find (\<lambda>n. fn_id n = fe_target e) ns")
    case None
    with sn show ?thesis
      by (simp add: wrapEdge_def getNodeData_def Let_def split: prod.splits)
  next
    case tn: (Some tn)
    show ?thesis
    proof (cases "geometryKnown sn \<and> geometryKnown tn")
      case False
      then have "\<not> (nodeRect sn \<noteq> None \<and> fn_handleBounds sn \<noteq> None) \<or>
                 \<not> (nodeRect tn \<noteq> None \<and> fn_handleBounds tn \<noteq> None)"
        using False nodeRect_known [of sn] nodeRect_known [of tn] by blast
      with sn tn False show ?thesis
        by (auto simp: wrapEdge_def getNodeData_def Let_def)
    next
      case True
      then have v: "nodeRect sn \<noteq> None" "fn_handleBounds sn \<noteq> None"
        "nodeRect tn \<noteq> None" "fn_handleBounds tn \<noteq> None"
        by (simp_all add: nodeRect_known [symmetric])
      have "wrapEdge gep ns e =
          (case (getHandle (Option.bind (fn_handleBounds sn) hb_source) (fe_sourceHandle e),
                 getHandle (Option.bind (fn_handleBounds tn) hb_target) (fe_targetHandle e)) of
             (Some sh, Some th) \<Rightarrow>
               Some \<lparr>w_edge = e,
                     w_type = (case fe_type e of None \<Rightarrow> ''default''
                               | Some t \<Rightarrow> if t = [] then ''default'' else t),
                     w_coordinates =
                       gep (nodeRect sn) sh
                         (case h_position sh of None \<Rightarrow> PosBottom | Some p \<Rightarrow> p)
                         (nodeRect tn) th
                         (case h_position th of None \<Rightarrow> PosTop | Some p \<Rightarrow> p),
                     w_sourcePosition =
                       (case h_position sh of None \<Rightarrow> PosBottom | Some p \<Rightarrow> p),
                     w_targetPosition =
                       (case h_position th of None \<Rightarrow> PosTop | Some p \<Rightarrow> p),
                     w_sourceHandleId = fe_sourceHandle e,
                     w_targetHandleId = fe_targetHandle e\<rparr>
           | _ \<Rightarrow> None)"
        using sn tn v
        by (simp add: wrapEdge_def getNodeData_def Let_def split: option.splits)
      with sn tn True show ?thesis
        by (simp add: getHandle_source getHandle_target)
    qed
  qed
qed

lemma wrapEdge_Some:
  assumes "wrapEdge gep ns e = Some w"
  shows "w_edge w = e \<and>
    (\<exists>sn tn sh th.
       find (\<lambda>n. fn_id n = fe_source e) ns = Some sn \<and>
       find (\<lambda>n. fn_id n = fe_target e) ns = Some tn \<and>
       geometryKnown sn \<and> geometryKnown tn \<and>
       getHandle (Some (sourceHandles sn)) (fe_sourceHandle e) = Some sh \<and>
       getHandle (Some (targetHandles tn)) (fe_targetHandle e) = Some th \<and>
       w_sourcePosition w = (case h_position sh of None \<Rightarrow> PosBottom | Some p \<Rightarrow> p) \<and>
       w_targetPosition w = (case h_position th of None \<Rightarrow> PosTop | Some p \<Rightarrow> p))"
proof -
  obtain sn where sn: "find (\<lambda>n. fn_id n = fe_source e) ns = Some sn"
    using assms by (cases "find (\<lambda>n. fn_id n = fe_source e) ns") (simp_all add: wrapEdge_cases)
  obtain tn where tn: "find (\<lambda>n. fn_id n = fe_target e) ns = Some tn"
    using assms sn by (cases "find (\<lambda>n. fn_id n = fe_target e) ns") (simp_all add: wrapEdge_cases)
  have geo: "geometryKnown sn \<and> geometryKnown tn"
    using assms sn tn by (cases "geometryKnown sn \<and> geometryKnown tn") (simp_all add: wrapEdge_cases)
  obtain sh where sh: "getHandle (Some (sourceHandles sn)) (fe_sourceHandle e) = Some sh"
    using assms sn tn geo
    by (cases "getHandle (Some (sourceHandles sn)) (fe_sourceHandle e)") (simp_all add: wrapEdge_cases)
  obtain th where th: "getHandle (Some (targetHandles tn)) (fe_targetHandle e) = Some th"
    using assms sn tn geo sh
    by (cases "getHandle (Some (targetHandles tn)) (fe_targetHandle e)") (simp_all add: wrapEdge_cases)
  have w: "w_edge w = e"
    "w_sourcePosition w = (case h_position sh of None \<Rightarrow> PosBottom | Some p \<Rightarrow> p)"
    "w_targetPosition w = (case h_position th of None \<Rightarrow> PosTop | Some p \<Rightarrow> p)"
    using assms sn tn geo sh th by (auto simp: wrapEdge_cases)
  have "find (\<lambda>n. fn_id n = fe_source e) ns = Some sn \<and>
       find (\<lambda>n. fn_id n = fe_target e) ns = Some tn \<and>
       geometryKnown sn \<and> geometryKnown tn \<and>
       getHandle (Some (sourceHandles sn)) (fe_sourceHandle e) = Some sh \<and>
       getHandle (Some (targetHandles tn)) (fe_targetHandle e) = Some th \<and>
       w_sourcePosition w = (case h_position sh of None \<Rightarrow> PosBottom | Some p \<Rightarrow> p) \<and>
       w_targetPosition w = (case h_position th of None \<Rightarrow> PosTop | Some p \<Rightarrow> p)"
    using sn tn geo sh th w by simp
  then have "\<exists>sn tn sh th.
       find (\<lambda>n. fn_id n = fe_source e) ns = Some sn \<and>
       find (\<lambda>n. fn_id n = fe_target e) ns = Some tn \<and>
       geometryKnown sn \<and> geometryKnown tn \<and>
       getHandle (Some (sourceHandles sn)) (fe_sourceHandle e) = Some sh \<and>
       getHandle (Some (targetHandles tn)) (fe_targetHandle e) = Some th \<and>
       w_sourcePosition w = (case h_position sh of None \<Rightarrow> PosBottom | Some p \<Rightarrow> p) \<and>
       w_targetPosition w = (case h_position th of None \<Rightarrow> PosTop | Some p \<Rightarrow> p)"
    by (intro exI)
  with w(1) show ?thesis
    by simp
qed

lemma wrapEdge_shown:
  "wrapEdge gep ns e \<noteq> None \<longleftrightarrow>
     (\<exists>sn tn.
        find (\<lambda>n. fn_id n = fe_source e) ns = Some sn \<and>
        find (\<lambda>n. fn_id n = fe_target e) ns = Some tn \<and>
        geometryKnown sn \<and> geometryKnown tn \<and>
        (case fe_sourceHandle e of None \<Rightarrow> sourceHandles sn \<noteq> []
         | Some i \<Rightarrow> \<exists>k \<in> set (sourceHandles sn). h_id k = Some i) \<and>
        (case fe_targetHandle e of None \<Rightarrow> targetHandles tn \<noteq> []
         | Some i \<Rightarrow> \<exists>k \<in> set (targetHandles tn). h_id k = Some i))"
proof (cases "find (\<lambda>n. fn_id n = fe_source e) ns")
  case None
  then show ?thesis by (simp add: wrapEdge_cases)
next
  case sn: (Some sn)
  show ?thesis
  proof (cases "find (\<lambda>n. fn_id n = fe_target e) ns")
    case None
    with sn show ?thesis by (simp add: wrapEdge_cases)
  next
    case tn: (Some tn)
    have "wrapEdge gep ns e \<noteq> None \<longleftrightarrow>
        geometryKnown sn \<and> geometryKnown tn \<and>
        getHandle (Some (sourceHandles sn)) (fe_sourceHandle e) \<noteq> None \<and>
        getHandle (Some (targetHandles tn)) (fe_targetHandle e) \<noteq> None"
      using sn tn by (auto simp: wrapEdge_cases split: option.splits)
    with sn tn show ?thesis
      by (simp add: getHandle_None)
  qed
qed

lemma in_map_filter: "y \<in> set (List.map_filter g xs) \<longleftrightarrow> (\<exists>x \<in> set xs. g x = Some y)"
  by (induction xs) (auto split: option.splits)

lemma shown_edges:
  "w_edge ` set (List.map_filter (wrapEdge gep ns) es) = {e \<in> set es. wrapEdge gep ns e \<noteq> None}"
proof (intro set_eqI iffI)
  fix e assume "e \<in> w_edge ` set (List.map_filter (wrapEdge gep ns) es)"
  then obtain w e' where "e' \<in> set es" "wrapEdge gep ns e' = Some w" "w_edge w = e"
    by (auto simp: in_map_filter)
  with wrapEdge_Some [of gep ns e' w] show "e \<in> {e \<in> set es. wrapEdge gep ns e \<noteq> None}"
    by auto
next
  fix e assume "e \<in> {e \<in> set es. wrapEdge gep ns e \<noteq> None}"
  then obtain w where e: "e \<in> set es" and w: "wrapEdge gep ns e = Some w"
    by auto
  from wrapEdge_Some [OF w] have "w_edge w = e"
    by simp
  moreover from e w have "w \<in> set (List.map_filter (wrapEdge gep ns) es)"
    by (auto simp: in_map_filter)
  ultimately show "e \<in> w_edge ` set (List.map_filter (wrapEdge gep ns) es)"
    by blast
qed

text \<open>
  C4. Every edge of \<^verbatim>\<open>edgesWithDataStore\<close> comes from an edge of the edge collection
  whose source and target ids are found among the nodes, both nodes with known geometry,
  with a handle resolved on each side among the node's handles of that role: the handle of
  the id the edge names, which then exists, and the first handle when the edge names none.
  An edge of the collection is in the projection exactly when both endpoints are found,
  both have known geometry and a matching handle exists on both sides; so an edge with an
  endpoint that is not found, with a node of unknown geometry, naming a handle id that
  the node does not have, or naming none with no handle of the role on the node, is left
  out. The projection is the edge collection, in order, without the edges left out; the
  model is total, nothing is raised.
\<close>

theorem visible_edges_resolved:
  "(\<forall>w \<in> set (edgesWithDataStore gep st).
      w_edge w \<in> set (edgesStore st) \<and>
      (\<exists>sn tn sh th.
         find (\<lambda>n. fn_id n = fe_source (w_edge w)) (nodesStore st) = Some sn \<and>
         find (\<lambda>n. fn_id n = fe_target (w_edge w)) (nodesStore st) = Some tn \<and>
         sn \<in> set (nodesStore st) \<and> fn_id sn = fe_source (w_edge w) \<and>
         tn \<in> set (nodesStore st) \<and> fn_id tn = fe_target (w_edge w) \<and>
         geometryKnown sn \<and> geometryKnown tn \<and>
         sh \<in> set (sourceHandles sn) \<and> th \<in> set (targetHandles tn) \<and>
         resolvesTo (sourceHandles sn) (fe_sourceHandle (w_edge w)) sh \<and>
         resolvesTo (targetHandles tn) (fe_targetHandle (w_edge w)) th \<and>
         (\<forall>i. fe_sourceHandle (w_edge w) = Some i \<longrightarrow> h_id sh = Some i) \<and>
         (\<forall>i. fe_targetHandle (w_edge w) = Some i \<longrightarrow> h_id th = Some i) \<and>
         (fe_sourceHandle (w_edge w) = None \<longrightarrow>
            (case sourceHandles sn of [] \<Rightarrow> False | k # _ \<Rightarrow> sh = k)) \<and>
         (fe_targetHandle (w_edge w) = None \<longrightarrow>
            (case targetHandles tn of [] \<Rightarrow> False | k # _ \<Rightarrow> th = k)) \<and>
         w_sourcePosition w = (case h_position sh of None \<Rightarrow> PosBottom | Some p \<Rightarrow> p) \<and>
         w_targetPosition w = (case h_position th of None \<Rightarrow> PosTop | Some p \<Rightarrow> p))) \<and>
   (\<forall>e \<in> set (edgesStore st).
      (e \<in> w_edge ` set (edgesWithDataStore gep st)) =
      (\<exists>sn tn.
         find (\<lambda>n. fn_id n = fe_source e) (nodesStore st) = Some sn \<and>
         find (\<lambda>n. fn_id n = fe_target e) (nodesStore st) = Some tn \<and>
         geometryKnown sn \<and> geometryKnown tn \<and>
         (case fe_sourceHandle e of None \<Rightarrow> sourceHandles sn \<noteq> []
          | Some i \<Rightarrow> \<exists>k \<in> set (sourceHandles sn). h_id k = Some i) \<and>
         (case fe_targetHandle e of None \<Rightarrow> targetHandles tn \<noteq> []
          | Some i \<Rightarrow> \<exists>k \<in> set (targetHandles tn). h_id k = Some i))) \<and>
   (\<forall>e \<in> set (edgesStore st).
      (find (\<lambda>n. fn_id n = fe_source e) (nodesStore st) = None \<or>
       find (\<lambda>n. fn_id n = fe_target e) (nodesStore st) = None \<or>
       (\<exists>n. (find (\<lambda>n. fn_id n = fe_source e) (nodesStore st) = Some n \<or>
             find (\<lambda>n. fn_id n = fe_target e) (nodesStore st) = Some n) \<and> \<not> geometryKnown n) \<or>
       (\<exists>sn i. find (\<lambda>n. fn_id n = fe_source e) (nodesStore st) = Some sn \<and>
               fe_sourceHandle e = Some i \<and> (\<forall>k \<in> set (sourceHandles sn). h_id k \<noteq> Some i)) \<or>
       (\<exists>tn i. find (\<lambda>n. fn_id n = fe_target e) (nodesStore st) = Some tn \<and>
               fe_targetHandle e = Some i \<and> (\<forall>k \<in> set (targetHandles tn). h_id k \<noteq> Some i)) \<or>
       (\<exists>sn. find (\<lambda>n. fn_id n = fe_source e) (nodesStore st) = Some sn \<and> sourceHandles sn = []) \<or>
       (\<exists>tn. find (\<lambda>n. fn_id n = fe_target e) (nodesStore st) = Some tn \<and> targetHandles tn = []))
      \<longrightarrow> e \<notin> w_edge ` set (edgesWithDataStore gep st)) \<and>
   map w_edge (edgesWithDataStore gep st) =
     filter (\<lambda>e. wrapEdge gep (nodesStore st) e \<noteq> None) (edgesStore st)"
proof (intro conjI ballI impI)
  fix w :: wrap_edge_props
  assume "w \<in> set (edgesWithDataStore gep st)"
  then obtain e where e: "e \<in> set (edgesStore st)" and w: "wrapEdge gep (nodesStore st) e = Some w"
    by (auto simp: edgesWithDataStore_def in_map_filter)
  from wrapEdge_Some [OF w] e show "w_edge w \<in> set (edgesStore st)"
    by simp
  from wrapEdge_Some [OF w] obtain sn tn sh th where
    f: "find (\<lambda>n. fn_id n = fe_source e) (nodesStore st) = Some sn"
       "find (\<lambda>n. fn_id n = fe_target e) (nodesStore st) = Some tn"
    and we: "w_edge w = e"
    and geo: "geometryKnown sn" "geometryKnown tn"
    and gh: "getHandle (Some (sourceHandles sn)) (fe_sourceHandle e) = Some sh"
       "getHandle (Some (targetHandles tn)) (fe_targetHandle e) = Some th"
    and pos: "w_sourcePosition w = (case h_position sh of None \<Rightarrow> PosBottom | Some p \<Rightarrow> p)"
       "w_targetPosition w = (case h_position th of None \<Rightarrow> PosTop | Some p \<Rightarrow> p)"
    by blast
  let ?P = "\<lambda>sn tn sh th.
         find (\<lambda>n. fn_id n = fe_source (w_edge w)) (nodesStore st) = Some sn \<and>
         find (\<lambda>n. fn_id n = fe_target (w_edge w)) (nodesStore st) = Some tn \<and>
         sn \<in> set (nodesStore st) \<and> fn_id sn = fe_source (w_edge w) \<and>
         tn \<in> set (nodesStore st) \<and> fn_id tn = fe_target (w_edge w) \<and>
         geometryKnown sn \<and> geometryKnown tn \<and>
         sh \<in> set (sourceHandles sn) \<and> th \<in> set (targetHandles tn) \<and>
         resolvesTo (sourceHandles sn) (fe_sourceHandle (w_edge w)) sh \<and>
         resolvesTo (targetHandles tn) (fe_targetHandle (w_edge w)) th \<and>
         (\<forall>i. fe_sourceHandle (w_edge w) = Some i \<longrightarrow> h_id sh = Some i) \<and>
         (\<forall>i. fe_targetHandle (w_edge w) = Some i \<longrightarrow> h_id th = Some i) \<and>
         (fe_sourceHandle (w_edge w) = None \<longrightarrow>
            (case sourceHandles sn of [] \<Rightarrow> False | k # _ \<Rightarrow> sh = k)) \<and>
         (fe_targetHandle (w_edge w) = None \<longrightarrow>
            (case targetHandles tn of [] \<Rightarrow> False | k # _ \<Rightarrow> th = k)) \<and>
         w_sourcePosition w = (case h_position sh of None \<Rightarrow> PosBottom | Some p \<Rightarrow> p) \<and>
         w_targetPosition w = (case h_position th of None \<Rightarrow> PosTop | Some p \<Rightarrow> p)"
  have "?P sn tn sh th"
    using find_SomeD [OF f(1)] find_SomeD [OF f(2)] f geo pos
      getHandle_Some [OF gh(1)] getHandle_Some [OF gh(2)]
      getHandle_Some_resolvesTo [OF gh(1)] getHandle_Some_resolvesTo [OF gh(2)]
    by (simp add: we)
  then show "\<exists>sn tn sh th. ?P sn tn sh th"
    by (intro exI)
next
  fix e :: flow_edge
  assume "e \<in> set (edgesStore st)"
  then show "(e \<in> w_edge ` set (edgesWithDataStore gep st)) =
      (\<exists>sn tn.
         find (\<lambda>n. fn_id n = fe_source e) (nodesStore st) = Some sn \<and>
         find (\<lambda>n. fn_id n = fe_target e) (nodesStore st) = Some tn \<and>
         geometryKnown sn \<and> geometryKnown tn \<and>
         (case fe_sourceHandle e of None \<Rightarrow> sourceHandles sn \<noteq> []
          | Some i \<Rightarrow> \<exists>k \<in> set (sourceHandles sn). h_id k = Some i) \<and>
         (case fe_targetHandle e of None \<Rightarrow> targetHandles tn \<noteq> []
          | Some i \<Rightarrow> \<exists>k \<in> set (targetHandles tn). h_id k = Some i))"
    unfolding edgesWithDataStore_def shown_edges
    using wrapEdge_shown [of gep "nodesStore st" e] by simp
next
  fix e :: flow_edge
  assume "e \<in> set (edgesStore st)"
  assume "find (\<lambda>n. fn_id n = fe_source e) (nodesStore st) = None \<or>
       find (\<lambda>n. fn_id n = fe_target e) (nodesStore st) = None \<or>
       (\<exists>n. (find (\<lambda>n. fn_id n = fe_source e) (nodesStore st) = Some n \<or>
             find (\<lambda>n. fn_id n = fe_target e) (nodesStore st) = Some n) \<and> \<not> geometryKnown n) \<or>
       (\<exists>sn i. find (\<lambda>n. fn_id n = fe_source e) (nodesStore st) = Some sn \<and>
               fe_sourceHandle e = Some i \<and> (\<forall>k \<in> set (sourceHandles sn). h_id k \<noteq> Some i)) \<or>
       (\<exists>tn i. find (\<lambda>n. fn_id n = fe_target e) (nodesStore st) = Some tn \<and>
               fe_targetHandle e = Some i \<and> (\<forall>k \<in> set (targetHandles tn). h_id k \<noteq> Some i)) \<or>
       (\<exists>sn. find (\<lambda>n. fn_id n = fe_source e) (nodesStore st) = Some sn \<and> sourceHandles sn = []) \<or>
       (\<exists>tn. find (\<lambda>n. fn_id n = fe_target e) (nodesStore st) = Some tn \<and> targetHandles tn = [])"
  then have "\<not> (wrapEdge gep (nodesStore st) e \<noteq> None)"
    unfolding wrapEdge_shown
    by (auto split: option.splits)
  then show "e \<notin> w_edge ` set (edgesWithDataStore gep st)"
    unfolding edgesWithDataStore_def shown_edges by simp
next
  have "\<And>es. map w_edge (List.map_filter (wrapEdge gep (nodesStore st)) es) =
      filter (\<lambda>e. wrapEdge gep (nodesStore st) e \<noteq> None) es"
  proof -
    fix es show "map w_edge (List.map_filter (wrapEdge gep (nodesStore st)) es) =
      filter (\<lambda>e. wrapEdge gep (nodesStore st) e \<noteq> None) es"
      by (induction es) (auto dest: wrapEdge_Some split: option.splits)
  qed
  then show "map w_edge (edgesWithDataStore gep st) =
     filter (\<lambda>e. wrapEdge gep (nodesStore st) e \<noteq> None) (edgesStore st)"
    by (simp add: edgesWithDataStore_def)
qed

lemma flowStore1_wrap:
  "wrapEdge zeroPositions [flowNode0, measuredM, measuredN] edgeDangling = None"
  "wrapEdge zeroPositions [flowNode0, measuredM, measuredN] edgeUnmeasured = None"
  "wrapEdge zeroPositions [flowNode0, measuredM, measuredN] edgeNope = None"
  "wrapEdge zeroPositions [flowNode0, measuredM, measuredN] edgeMN =
     Some \<lparr>w_edge = edgeMN, w_type = ''default'', w_coordinates = (0, 0, 0, 0),
           w_sourcePosition = PosRight, w_targetPosition = PosTop,
           w_sourceHandleId = None, w_targetHandleId = Some ''t2''\<rparr>"
  "wrapEdge zeroPositions [flowNode0, measuredM, measuredN] edgeFirst =
     Some \<lparr>w_edge = edgeFirst, w_type = ''default'', w_coordinates = (0, 0, 0, 0),
           w_sourcePosition = PosRight, w_targetPosition = PosLeft,
           w_sourceHandleId = None, w_targetHandleId = None\<rparr>"
  unfolding wrapEdge_def Let_def
  by (simp_all add: getNodeData_def nodeRect_def getHandle_def zeroPositions_def
      flowNode0_def measuredM_def measuredN_def edgeDangling_def edgeUnmeasured_def edgeMN_def
      edgeNope_def edgeFirst_def flowEdge0_def handleS_def handleT1_def handleT2_def)

theorem visible_edges_resolved_witness:
  "edgesStore flowStore1 = [edgeDangling, edgeMN, edgeNope, edgeFirst, edgeUnmeasured] \<and>
   find (\<lambda>n. fn_id n = fe_target edgeDangling) (nodesStore flowStore1) = None \<and>
   edgeDangling \<notin> w_edge ` set (edgesWithDataStore zeroPositions flowStore1) \<and>
   find (\<lambda>n. fn_id n = fe_target edgeNope) (nodesStore flowStore1) = Some measuredN \<and>
   fe_targetHandle edgeNope = Some ''nope'' \<and>
   map h_id (targetHandles measuredN) = [Some ''t1'', Some ''t2''] \<and>
   edgeNope \<notin> w_edge ` set (edgesWithDataStore zeroPositions flowStore1) \<and>
   edgeUnmeasured \<notin> w_edge ` set (edgesWithDataStore zeroPositions flowStore1) \<and>
   map w_edge (edgesWithDataStore zeroPositions flowStore1) = [edgeMN, edgeFirst] \<and>
   map w_targetPosition (edgesWithDataStore zeroPositions flowStore1) = [PosTop, PosLeft]"
proof -
  have es: "edgesStore flowStore1 = [edgeDangling, edgeMN, edgeNope, edgeFirst, edgeUnmeasured]"
    "nodesStore flowStore1 = [flowNode0, measuredM, measuredN]"
    by (simp_all add: flowStore1_def)
  have f: "find (\<lambda>n. fn_id n = fe_target edgeDangling) (nodesStore flowStore1) = None"
    by (simp add: es flowNode0_def measuredM_def measuredN_def edgeDangling_def flowEdge0_def)
  have g: "find (\<lambda>n. fn_id n = fe_target edgeNope) (nodesStore flowStore1) = Some measuredN"
    "fe_targetHandle edgeNope = Some ''nope''"
    by (simp_all add: es flowNode0_def measuredM_def measuredN_def edgeNope_def flowEdge0_def)
  have hs: "targetHandles measuredN = [handleT1, handleT2]"
    by (simp add: targetHandles_def measuredN_def flowNode0_def)
  have ids: "map h_id (targetHandles measuredN) = [Some ''t1'', Some ''t2'']"
    by (simp add: hs handleT1_def handleT2_def)
  have u: "find (\<lambda>n. fn_id n = fe_target edgeUnmeasured) (nodesStore flowStore1) = Some flowNode0"
    "\<not> geometryKnown flowNode0"
    by (simp_all add: es flowNode0_def edgeUnmeasured_def flowEdge0_def geometryKnown_def)
  note t = visible_edges_resolved [of zeroPositions flowStore1]
  from t f es
  have a: "edgeDangling \<notin> w_edge ` set (edgesWithDataStore zeroPositions flowStore1)"
    by simp
  have miss: "\<forall>k \<in> set (targetHandles measuredN). h_id k \<noteq> Some ''nope''"
    by (simp add: hs handleT1_def handleT2_def)
  have "edgeNope \<in> set (edgesStore flowStore1)"
    by (simp add: es)
  with t g miss
  have b: "edgeNope \<notin> w_edge ` set (edgesWithDataStore zeroPositions flowStore1)"
    by blast
  have "edgeUnmeasured \<in> set (edgesStore flowStore1)"
    by (simp add: es)
  with t u
  have c: "edgeUnmeasured \<notin> w_edge ` set (edgesWithDataStore zeroPositions flowStore1)"
    by blast
  from t
  have d: "map w_edge (edgesWithDataStore zeroPositions flowStore1) = [edgeMN, edgeFirst]"
    by (simp add: es flowStore1_wrap)
  have r: "edgesWithDataStore zeroPositions flowStore1 =
     [\<lparr>w_edge = edgeMN, w_type = ''default'', w_coordinates = (0, 0, 0, 0),
       w_sourcePosition = PosRight, w_targetPosition = PosTop,
       w_sourceHandleId = None, w_targetHandleId = Some ''t2''\<rparr>,
      \<lparr>w_edge = edgeFirst, w_type = ''default'', w_coordinates = (0, 0, 0, 0),
       w_sourcePosition = PosRight, w_targetPosition = PosLeft,
       w_sourceHandleId = None, w_targetHandleId = None\<rparr>]"
    by (simp add: edgesWithDataStore_def es flowStore1_wrap)
  show ?thesis
    using es f g ids a b c d by (simp add: r)
qed

subsection \<open>Fit view\<close>

text \<open>
  C5, as the code has it. Without a pan/zoom engine \<^verbatim>\<open>fitView\<close> returns \<^verbatim>\<open>false\<close> and
  leaves the store as it was, whatever the options, \<^verbatim>\<open>waitForInit\<close> included. With an
  engine and \<^verbatim>\<open>waitForInit\<close> requested it stores the options in \<^verbatim>\<open>fitViewScheduled\<close>,
  returns \<^verbatim>\<open>true\<close> and touches neither the engine nor the viewport.
\<close>

theorem fitView_engine_first:
  "(panZoom s = None \<longrightarrow> fitView fvu nds options s = (False, s)) \<and>
   (\<forall>pz opts. panZoom s = Some pz \<and> options = Some opts \<and> truthy (waitForInit opts) \<longrightarrow>
      fitView fvu nds options s =
        (True, s\<lparr>fitViewScheduled := FvsOptions opts,
                 writes := writes s @ [FitViewScheduledCell]\<rparr>) \<and>
      panZoom (snd (fitView fvu nds options s)) = panZoom s \<and>
      viewport (snd (fitView fvu nds options s)) = viewport s)"
  by (simp add: fitView_def)

theorem fitView_engine_first_witness:
  "panZoom store1 = None \<and> truthy (waitForInit waitOptions) \<and>
   fitView fitOk [0, 1] (Some waitOptions) store1 = (False, store1) \<and>
   panZoom scheduledStore = Some engine0 \<and>
   fitView fitOk [0, 1] (Some waitOptions) scheduledStore =
     (True, scheduledStore\<lparr>fitViewScheduled := FvsOptions waitOptions,
                           writes := [FitViewScheduledCell]\<rparr>)"
proof -
  have w: "truthy (waitForInit waitOptions)"
    by (simp add: waitOptions_def)
  have e: "panZoom scheduledStore = Some engine0" "writes scheduledStore = []"
    by (simp_all add: scheduledStore_def store1_observed)
  from fitView_engine_first [of store1 fitOk "[0, 1]" "Some waitOptions"]
  have a: "fitView fitOk [0, 1] (Some waitOptions) store1 = (False, store1)"
    by (simp add: store1_observed)
  from fitView_engine_first [of scheduledStore fitOk "[0, 1]" "Some waitOptions"] w e
  have b: "fitView fitOk [0, 1] (Some waitOptions) scheduledStore =
     (True, scheduledStore\<lparr>fitViewScheduled := FvsOptions waitOptions,
                           writes := [FitViewScheduledCell]\<rparr>)"
    by simp
  show ?thesis
    using a b w e by (simp add: store1_observed)
qed

text \<open>
  C5 as it is written fails: no engine, \<^verbatim>\<open>waitForInit\<close> requested, and \<^verbatim>\<open>fitView\<close>
  returns \<^verbatim>\<open>false\<close> with no request registered.
\<close>

theorem fitView_waitForInit_without_engine:
  "panZoom store1 = None \<and> waitForInit waitOptions = Some True \<and>
   fst (fitView fitOk [0, 1] (Some waitOptions) store1) = False \<and>
   fitViewScheduled (snd (fitView fitOk [0, 1] (Some waitOptions) store1)) = FvsBool False"
  by (simp add: fitView_def store1_def store0_def waitOptions_def)

text \<open>
  C6. When \<^verbatim>\<open>updateNodeDimensionsSystem\<close> answers with an array of nodes while the cell
  \<^verbatim>\<open>fitViewScheduled\<close> is truthy, \<^verbatim>\<open>updateNodeDimensions\<close> calls \<^verbatim>\<open>fitView\<close> once with that
  array and options that never ask to wait. Without an engine the retry fails and the
  cell keeps its value. With an engine the answer of \<^verbatim>\<open>fitViewUtil\<close> on the new nodes
  decides: on \<^verbatim>\<open>true\<close> the cell becomes \<^verbatim>\<open>false\<close>, otherwise it keeps its value, so the
  next dimension update retries. The array becomes the node collection either way.
\<close>

theorem dimension_update_retries_fit_view:
  assumes sys: "uds updates s = (h, Some nextNodes)"
    and sched: "fitViewScheduled s \<noteq> FvsBool False"
  shows "nodes (updateNodeDimensions uds fvu updates s) = nextNodes \<and>
    (panZoom s = None \<longrightarrow>
       fitViewScheduled (updateNodeDimensions uds fvu updates s) = fitViewScheduled s) \<and>
    (\<forall>pz. panZoom s = Some pz \<longrightarrow>
       (let answer = fvu h
              \<lparr>fvp_nodes = nextNodes, fvp_width = width s, fvp_height = height s,
               fvp_minZoom = minZoom s, fvp_maxZoom = maxZoom s, fvp_panZoom = pz,
               fvp_nodeOrigin = nodeOrigin s\<rparr>
              (Some (fitViewOptions (fitViewScheduled s) nextNodes))
        in panZoom (updateNodeDimensions uds fvu updates s) = Some (snd answer) \<and>
           fitViewScheduled (updateNodeDimensions uds fvu updates s) =
             (if fst answer then FvsBool False else fitViewScheduled s)))"
proof -
  have nowait: "\<not> truthy (waitForInit (fitViewOptions (fitViewScheduled s) nextNodes))"
    by (cases "fitViewScheduled s") (simp_all add: fitViewOptions_def)
  show ?thesis
    using sys sched nowait
    by (auto simp: updateNodeDimensions_def fitView_def callFitViewUtil_def Let_def
        split: option.splits prod.splits)
qed

theorem dimension_update_retries_fit_view_witness:
  "sameNodes () scheduledStore = (node_heap scheduledStore, Some [0, 1]) \<and>
   fitViewScheduled scheduledStore = FvsBool True \<and>
   fitViewScheduled (updateNodeDimensions sameNodes fitOk () scheduledStore) = FvsBool False \<and>
   panZoom (updateNodeDimensions sameNodes fitOk () scheduledStore) =
     Some \<lparr>pz_transform = (5, 5, 2), pz_calls = []\<rparr> \<and>
   fitViewScheduled (updateNodeDimensions sameNodes fitFail () scheduledStore) = FvsBool True \<and>
   fitViewScheduled
     (updateNodeDimensions sameNodes fitOk ()
        (updateNodeDimensions sameNodes fitFail () scheduledStore)) = FvsBool False"
proof -
  let ?s = scheduledStore
  let ?f = "updateNodeDimensions sameNodes fitFail () ?s"
  have sys: "sameNodes () ?s = (node_heap ?s, Some [0, 1])"
    by (simp add: sameNodes_def scheduledStore_def store1_observed)
  have sched: "fitViewScheduled ?s \<noteq> FvsBool False" "fitViewScheduled ?s = FvsBool True"
    "panZoom ?s = Some engine0"
    by (simp_all add: scheduledStore_def)
  from dimension_update_retries_fit_view [where uds = sameNodes and updates = "()" and s = ?s and fvu = fitOk, OF sys sched(1)] sched
  have ok: "fitViewScheduled (updateNodeDimensions sameNodes fitOk () ?s) = FvsBool False"
    "panZoom (updateNodeDimensions sameNodes fitOk () ?s) =
       Some \<lparr>pz_transform = (5, 5, 2), pz_calls = []\<rparr>"
    by (simp_all add: Let_def fitOk_def engine0_def)
  from dimension_update_retries_fit_view [where uds = sameNodes and updates = "()" and s = ?s and fvu = fitFail, OF sys sched(1)] sched
  have fail: "fitViewScheduled ?f = FvsBool True" "panZoom ?f = Some engine0" "nodes ?f = [0, 1]"
    by (simp_all add: Let_def fitFail_def)
  have sys': "sameNodes () ?f = (node_heap ?f, Some [0, 1])"
    by (simp add: sameNodes_def fail)
  have sched': "fitViewScheduled ?f \<noteq> FvsBool False"
    by (simp add: fail)
  from dimension_update_retries_fit_view [where uds = sameNodes and updates = "()" and s = ?f and fvu = fitOk, OF sys' sched'] fail
  have again: "fitViewScheduled (updateNodeDimensions sameNodes fitOk () ?f) = FvsBool False"
    by (simp add: Let_def fitOk_def)
  show ?thesis
    using sys sched ok fail again by simp
qed

subsection \<open>Clearing the selection\<close>

text \<open>
  C7, as the code has it. \<^verbatim>\<open>unselectNodesAndEdges(params)\<close> works on the nodes given, or
  on all nodes of the store when there are no params or the params give no nodes, and
  likewise, on their own, for the edges. Afterwards none of them is selected; an object
  is changed only if it was among them and selected, and then only its \<^verbatim>\<open>selected\<close>
  property, in place. The cell of the nodes is set exactly when one of the nodes worked on
  was selected, the cell of the edges exactly when one of the edges was, and each such
  call is \<^verbatim>\<open>store.c.set(get(store.c))\<close>: the cell is handed the array it holds already, so
  the arrays of the two cells are the ones they were.
\<close>

theorem unselect_writes_only_on_change:
  "(let s' = unselectNodesAndEdges params s;
        ns = (case params of None \<Rightarrow> nodes s
              | Some p \<Rightarrow> (case up_nodes p of None \<Rightarrow> nodes s | Some l \<Rightarrow> l));
        es = (case params of None \<Rightarrow> edges s
              | Some p \<Rightarrow> (case up_edges p of None \<Rightarrow> edges s | Some l \<Rightarrow> l));
        setNodes = (if \<exists>r \<in> set ns. truthy (selected (nodeAt s r)) then [NodesCell] else []);
        setEdges = (if \<exists>e \<in> set es. truthy (edge_selected (edgeAt s e)) then [EdgesCell] else [])
    in (\<forall>r \<in> set ns. \<not> truthy (selected (nodeAt s' r))) \<and>
       (\<forall>e \<in> set es. \<not> truthy (edge_selected (edgeAt s' e))) \<and>
       writes s' = writes s @ setNodes @ setEdges \<and>
       heldSets s' = heldSets s @ setNodes @ setEdges \<and>
       nodes s' = nodes s \<and> edges s' = edges s \<and>
       (\<forall>r. nodeAt s' r = (if r \<in> set ns \<and> truthy (selected (nodeAt s r))
                             then (nodeAt s r)\<lparr>selected := Some False\<rparr> else nodeAt s r)) \<and>
       (\<forall>e. edgeAt s' e = (if e \<in> set es \<and> truthy (edge_selected (edgeAt s e))
                             then (edgeAt s e)\<lparr>edge_selected := Some False\<rparr> else edgeAt s e)))"
proof -
  have ns: "(case params of None \<Rightarrow> nodes s
             | Some p \<Rightarrow> (case up_nodes p of None \<Rightarrow> nodes s | Some l \<Rightarrow> l)) =
            nodesOrAll params s"
    by (simp add: nodesOrAll_def)
  have es: "(case params of None \<Rightarrow> edges s
             | Some p \<Rightarrow> (case up_edges p of None \<Rightarrow> edges s | Some l \<Rightarrow> l)) =
            edgesOrAll params s"
    by (simp add: edgesOrAll_def)
  show ?thesis
    unfolding Let_def ns es
    by (auto simp: unselectNodesAndEdges_effect unselectNode_def unselectEdge_def)
qed

lemma store2_observed:
  "nodes store2 = [0, 1]"
  "edges store2 = [0]"
  "nodeAt store2 0 = nodeA"
  "nodeAt store2 (Suc 0) = nodeB"
  "edgeAt store2 0 = selectedEdge"
  "writes store2 = []"
  "heldSets store2 = []"
  by (simp_all add: store2_def store1_def store0_def nodeAt_def edgeAt_def)

lemma store2_selected:
  "truthy (selected nodeA)" "\<not> truthy (selected nodeB)" "truthy (edge_selected selectedEdge)"
  by (simp_all add: nodeA_def nodeB_def node0_def selectedEdge_def)

theorem unselect_writes_only_on_change_witness:
  "nodes store2 = [0, 1] \<and> edges store2 = [0] \<and>
   truthy (selected (nodeAt store2 0)) \<and> \<not> truthy (selected (nodeAt store2 1)) \<and>
   truthy (edge_selected (edgeAt store2 0)) \<and>
   writes (unselectNodesAndEdges None store2) = [NodesCell, EdgesCell] \<and>
   nodeAt (unselectNodesAndEdges None store2) 0 = nodeA\<lparr>selected := Some False\<rparr> \<and>
   nodeAt (unselectNodesAndEdges None store2) 1 = nodeB \<and>
   edgeAt (unselectNodesAndEdges None store2) 0 = selectedEdge\<lparr>edge_selected := Some False\<rparr> \<and>
   writes (unselectNodesAndEdges (Some \<lparr>up_nodes = Some [1], up_edges = None\<rparr>) store2) =
     [EdgesCell] \<and>
   nodeAt (unselectNodesAndEdges (Some \<lparr>up_nodes = Some [1], up_edges = None\<rparr>) store2) 0 =
     nodeA \<and>
   edgeAt (unselectNodesAndEdges (Some \<lparr>up_nodes = Some [1], up_edges = None\<rparr>) store2) 0 =
     selectedEdge\<lparr>edge_selected := Some False\<rparr> \<and>
   writes (unselectNodesAndEdges (Some \<lparr>up_nodes = Some [0], up_edges = Some []\<rparr>) store2) =
     [NodesCell] \<and>
   nodeAt (unselectNodesAndEdges (Some \<lparr>up_nodes = Some [0], up_edges = Some []\<rparr>) store2) 0 =
     nodeA\<lparr>selected := Some False\<rparr> \<and>
   edgeAt (unselectNodesAndEdges (Some \<lparr>up_nodes = Some [0], up_edges = Some []\<rparr>) store2) 0 =
     selectedEdge \<and>
   writes (unselectNodesAndEdges None (unselectNodesAndEdges None store2)) =
     [NodesCell, EdgesCell]"
proof -
  let ?all = "unselectNodesAndEdges None store2"
  let ?p1 = "Some \<lparr>up_nodes = Some [1], up_edges = None\<rparr>"
  let ?p0 = "Some \<lparr>up_nodes = Some [0], up_edges = Some []\<rparr>"
  note o = store2_observed store2_selected
  from unselect_writes_only_on_change [of None store2]
  have a: "writes ?all = [NodesCell, EdgesCell]" "nodes ?all = [0, 1]" "edges ?all = [0]"
    "nodeAt ?all 0 = nodeA\<lparr>selected := Some False\<rparr>" "nodeAt ?all (Suc 0) = nodeB"
    "edgeAt ?all 0 = selectedEdge\<lparr>edge_selected := Some False\<rparr>"
    by (simp_all add: Let_def o)
  from unselect_writes_only_on_change [of ?p1 store2]
  have b: "writes (unselectNodesAndEdges ?p1 store2) = [EdgesCell]"
    "nodeAt (unselectNodesAndEdges ?p1 store2) 0 = nodeA"
    "edgeAt (unselectNodesAndEdges ?p1 store2) 0 = selectedEdge\<lparr>edge_selected := Some False\<rparr>"
    by (simp_all add: Let_def o)
  from unselect_writes_only_on_change [of ?p0 store2]
  have c: "writes (unselectNodesAndEdges ?p0 store2) = [NodesCell]"
    "nodeAt (unselectNodesAndEdges ?p0 store2) 0 = nodeA\<lparr>selected := Some False\<rparr>"
    "edgeAt (unselectNodesAndEdges ?p0 store2) 0 = selectedEdge"
    by (simp_all add: Let_def o)
  from unselect_writes_only_on_change [of None ?all]
  have d: "writes (unselectNodesAndEdges None ?all) = [NodesCell, EdgesCell]"
    by (simp add: Let_def a o)
  show ?thesis
    using a b c d by (simp add: o)
qed

text \<open>
  C7 as it is written fails where it has a new array written: with a selected node in the
  store the cell of the nodes is set once, by \<^verbatim>\<open>store.nodes.set(get(store.nodes))\<close>, and the
  array it holds afterwards is the array it held.
\<close>

theorem unselect_sets_the_held_array:
  "truthy (selected (nodeAt store1 0)) \<and>
   writes (unselectNodesAndEdges None store1) = [NodesCell] \<and>
   heldSets (unselectNodesAndEdges None store1) = [NodesCell] \<and>
   nodes (unselectNodesAndEdges None store1) = nodes store1"
proof -
  have s: "truthy (selected (nodeAt store1 0))" "\<not> truthy (selected (nodeAt store1 (Suc 0)))"
    "\<not> truthy (edge_selected (edgeAt store1 0))"
    by (simp_all add: store1_observed nodeA_def nodeB_def node0_def edge0_def)
  have h: "heldSets store1 = []"
    by (simp add: store1_def store0_def)
  have t: "nodesOrAll None store1 = [0, 1]" "edgesOrAll None store1 = [0]"
    by (simp_all add: nodesOrAll_def edgesOrAll_def store1_observed)
  show ?thesis
    using s by (simp add: unselectNodesAndEdges_effect t h store1_observed)
qed

text \<open>
  C8. \<^verbatim>\<open>handleNodeSelection(id)\<close> with an id that no node of the collection has: the
  console gets the warning 012 and the store is otherwise the store it was. The model is
  a total function: there is no path that throws.
\<close>

theorem handleNodeSelection_unknown_id:
  assumes "ident \<notin> idsOfNodes s"
  shows "handleNodeSelection ident s = s\<lparr>console := console s @ [Warn ''012'' (Error012 ident)]\<rparr>"
proof -
  have "find (\<lambda>r. node_id (objs (node_heap s) r) = ident) (nodes s) = None"
    using assms by (auto simp: find_None_iff idsOfNodes_def nodeAt_def)
  then show ?thesis by (simp add: handleNodeSelection_def)
qed

theorem handleNodeSelection_unknown_id_witness:
  "''zz'' \<notin> idsOfNodes store1 \<and>
   handleNodeSelection ''zz'' store1 = store1\<lparr>console := [Warn ''012'' (Error012 ''zz'')]\<rparr>"
proof -
  have a: "''zz'' \<notin> idsOfNodes store1"
    by (simp add: store1_ids)
  from handleNodeSelection_unknown_id [OF a] a show ?thesis
    by (simp add: store1_observed)
qed

subsection \<open>Zoom bounds need an engine\<close>

text \<open>
  C9. Without a pan/zoom engine, \<^verbatim>\<open>setMinZoom\<close>, \<^verbatim>\<open>setMaxZoom\<close> and
  \<^verbatim>\<open>setTranslateExtent\<close> return the store as it was: no cell is written, the new bound is
  not kept, nothing is raised. With an engine, the engine receives the call and the one
  bound cell is set, nothing else changes.
\<close>

theorem bounds_need_engine:
  "(panZoom s = None \<longrightarrow>
      setMinZoom z s = s \<and> setMaxZoom z s = s \<and> setTranslateExtent ext s = s) \<and>
   (\<forall>pz. panZoom s = Some pz \<longrightarrow>
      setMinZoom z s =
        s\<lparr>panZoom := Some (pz\<lparr>pz_calls := pz_calls pz @ [SetScaleExtent z (maxZoom s)]\<rparr>),
          minZoom := z, writes := writes s @ [MinZoomCell]\<rparr> \<and>
      setMaxZoom z s =
        s\<lparr>panZoom := Some (pz\<lparr>pz_calls := pz_calls pz @ [SetScaleExtent (minZoom s) z]\<rparr>),
          maxZoom := z, writes := writes s @ [MaxZoomCell]\<rparr> \<and>
      setTranslateExtent ext s =
        s\<lparr>panZoom := Some (pz\<lparr>pz_calls := pz_calls pz @ [SetTranslateExtent ext]\<rparr>),
          translateExtent := ext, writes := writes s @ [TranslateExtentCell]\<rparr>)"
  by (simp add: setMinZoom_def setMaxZoom_def setTranslateExtent_def)

theorem bounds_need_engine_witness:
  "panZoom store0 = None \<and>
   setMinZoom 3 store0 = store0 \<and> minZoom (setMinZoom 3 store0) = 1 \<and>
   setMaxZoom 3 store0 = store0 \<and> maxZoom (setMaxZoom 3 store0) = 2 \<and>
   setTranslateExtent ((1, 1), (2, 2)) store0 = store0 \<and>
   panZoom (store0\<lparr>panZoom := Some engine0\<rparr>) = Some engine0 \<and>
   minZoom (setMinZoom 3 (store0\<lparr>panZoom := Some engine0\<rparr>)) = 3 \<and>
   panZoom (setMinZoom 3 (store0\<lparr>panZoom := Some engine0\<rparr>)) =
     Some \<lparr>pz_transform = (0, 0, 1), pz_calls = [SetScaleExtent 3 2]\<rparr>"
proof -
  have none: "panZoom store0 = None"
    by (simp add: store0_def)
  have some: "panZoom (store0\<lparr>panZoom := Some engine0\<rparr>) = Some engine0"
    by simp
  from none bounds_need_engine [of store0 3 "((1, 1), (2, 2))"]
  have a: "setMinZoom 3 store0 = store0 \<and> setMaxZoom 3 store0 = store0 \<and>
           setTranslateExtent ((1, 1), (2, 2)) store0 = store0"
    by blast
  from some bounds_need_engine [of "store0\<lparr>panZoom := Some engine0\<rparr>" 3 "((1, 1), (2, 2))"]
  have b: "setMinZoom 3 (store0\<lparr>panZoom := Some engine0\<rparr>) =
           store0\<lparr>panZoom := Some engine0\<rparr>
             \<lparr>panZoom := Some (engine0\<lparr>pz_calls := pz_calls engine0 @
                  [SetScaleExtent 3 (maxZoom (store0\<lparr>panZoom := Some engine0\<rparr>))]\<rparr>),
              minZoom := 3,
              writes := writes (store0\<lparr>panZoom := Some engine0\<rparr>) @ [MinZoomCell]\<rparr>"
    by blast
  have c: "minZoom store0 = 1 \<and> maxZoom store0 = 2"
    by (simp add: store0_def)
  show ?thesis
    using none a c
    by (simp add: b) (simp add: store0_def engine0_def)
qed

subsection \<open>Reset\<close>

text \<open>
  C10. \<^verbatim>\<open>reset()\<close> empties the node and edge collections, sets the selection rectangle,
  its mode and the snap grid to \<^verbatim>\<open>null\<close>, installs the validator that accepts every
  connection, and sets the connection in progress to its idle value; nothing in the
  store is selected afterwards. The viewport, the engine, the zoom bounds, the translate
  extent, the two registries of types, the cell \<^verbatim>\<open>fitViewScheduled\<close> and every other cell
  keep their values, and no node or edge object is changed.
\<close>

theorem reset_frame:
  "reset s =
     s\<lparr>selectionRect := None, selectionRectMode := None, snapGrid := None,
       isValidConnection := (\<lambda>_. True), nodes := [], edges := [],
       currentConnection := initConnectionUpdateData,
       writes := writes s @ [SelectionRectCell, SelectionRectModeCell, SnapGridCell,
                             IsValidConnectionCell, NodesCell, EdgesCell, CurrentConnectionCell]\<rparr> \<and>
   nodes (reset s) = [] \<and> edges (reset s) = [] \<and>
   selectionRect (reset s) = None \<and> selectionRectMode (reset s) = None \<and>
   snapGrid (reset s) = None \<and> isValidConnection (reset s) = (\<lambda>_. True) \<and>
   selectedNodeIds (reset s) = {} \<and> selectedEdgeIds (reset s) = {} \<and>
   currentConnection (reset s) =
     \<lparr>connectionStartHandle = None, connectionEndHandle = None,
      connectionPosition = None, connectionStatus = None\<rparr> \<and>
   viewport (reset s) = viewport s \<and> panZoom (reset s) = panZoom s \<and>
   minZoom (reset s) = minZoom s \<and> maxZoom (reset s) = maxZoom s \<and>
   translateExtent (reset s) = translateExtent s \<and>
   nodeTypes (reset s) = nodeTypes s \<and> edgeTypes (reset s) = edgeTypes s \<and>
   fitViewScheduled (reset s) = fitViewScheduled s \<and>
   node_heap (reset s) = node_heap s \<and> edge_heap (reset s) = edge_heap s"
proof -
  have eq: "reset s =
     s\<lparr>selectionRect := None, selectionRectMode := None, snapGrid := None,
       isValidConnection := (\<lambda>_. True), nodes := [], edges := [],
       currentConnection := initConnectionUpdateData,
       writes := writes s @ [SelectionRectCell, SelectionRectModeCell, SnapGridCell,
                             IsValidConnectionCell, NodesCell, EdgesCell, CurrentConnectionCell]\<rparr>"
    by (simp add: reset_def cancelConnection_def updateConnection_def unselectNodesAndEdges_def
        resetSelectedElements_Nil nodesOrAll_def edgesOrAll_def)
  show ?thesis
    unfolding eq
    by (simp add: selectedNodeIds_def selectedEdgeIds_def initConnectionUpdateData_def)
qed

end
